theory Spec2Isabelle
  imports Main "HOL-Library.Word"
begin

section \<open>Data model (internal/model)\<close>

text \<open>
  A \<open>uuid.UUID\<close> is sixteen bytes, here one 128-bit word; \<open>uuid.Nil\<close> is the zero value.
  A \<open>time.Time\<close> and a \<open>time.Duration\<close> are counted in nanoseconds; the zero time is 0.
\<close>

type_synonym uuid = "128 word"
type_synonym time = int
type_synonym Duration = int

definition uuid_Nil :: uuid where
  "uuid_Nil = 0"

definition Millisecond :: Duration where
  "Millisecond = 1000000"

text \<open>\<open>PaymentStatus\<close> is a string type in the source, with three named values.\<close>

type_synonym PaymentStatus = string

definition StatusInitiated :: PaymentStatus where
  "StatusInitiated = ''INITIATED''"

definition StatusSuccess :: PaymentStatus where
  "StatusSuccess = ''SUCCESS''"

definition StatusFailed :: PaymentStatus where
  "StatusFailed = ''FAILED''"

record Payment =
  ID :: uuid
  UserID :: string
  Amount :: int
  Currency :: string
  Status :: PaymentStatus
  IdempotencyKey :: string
  RetryCount :: int
  FailureReason :: string
  CreatedAt :: time
  UpdatedAt :: time

text \<open>
  The fields of \<open>CreatePaymentRequest\<close> and \<open>PaymentResponse\<close> carry a prefix, since a field
  name is a constant of the theory: \<open>ReqAmount\<close> is \<open>req.Amount\<close>, \<open>RespStatus\<close> is
  \<open>resp.Status\<close>.
\<close>

record CreatePaymentRequest =
  ReqIdempotencyKey :: string
  ReqAmount :: int
  ReqCurrency :: string
  ReqUserID :: string

record PaymentResponse =
  PaymentID :: string
  RespStatus :: PaymentStatus
  RespAmount :: int
  RespCurrency :: string
  RespCreatedAt :: time

section \<open>Errors\<close>

text \<open>
  A Go \<open>error\<close> of the service is a message and nothing else (\<open>errors.New\<close>, \<open>fmt.Errorf\<close>
  without wrapping): \<open>ErrorString\<close>. The errors of the database layer are values of their
  own: gorm's \<open>ErrRecordNotFound\<close>, the violation of a unique index (with the index's name),
  and every other fault of the storage (connection loss and the like, with its message).
\<close>

datatype error =
    ErrorString string
  | ErrRecordNotFound
  | UniqueViolation string
  | StorageFault string

fun Error :: "error \<Rightarrow> string" where
  "Error (ErrorString m) = m"
| "Error ErrRecordNotFound = ''record not found''"
| "Error (UniqueViolation c) = ''duplicate key value violates unique constraint '' @ c"
| "Error (StorageFault m) = m"

subsection \<open>The two verbs of fmt the service uses\<close>

function digits10 :: "nat \<Rightarrow> string" where
  "digits10 n =
     (if n < 10 then [''0123456789'' ! n]
      else digits10 (n div 10) @ [''0123456789'' ! (n mod 10)])"
  by pat_completeness auto
termination
  by (relation "measure id") auto

declare digits10.simps [simp del]

definition fmt_d :: "int \<Rightarrow> string" where
  "fmt_d i = (if i < 0 then CHR ''-'' # digits10 (nat (- i)) else digits10 (nat i))"

definition fmt_v :: "error option \<Rightarrow> string" where
  "fmt_v e = (case e of None \<Rightarrow> ''<nil>'' | Some err \<Rightarrow> Error err)"

subsection \<open>\<open>uuid.UUID.String\<close>: the canonical lower-case form\<close>

fun hex_of :: "nat \<Rightarrow> nat \<Rightarrow> string" where
  "hex_of 0 v = []"
| "hex_of (Suc n) v = hex_of n (v div 16) @ [''0123456789abcdef'' ! (v mod 16)]"

definition uuid_String :: "uuid \<Rightarrow> string" where
  "uuid_String u =
     (let h = hex_of 32 (unat u)
      in take 8 h @ ''-'' @ take 4 (drop 8 h) @ ''-'' @ take 4 (drop 12 h) @ ''-'' @
         take 4 (drop 16 h) @ ''-'' @ drop 20 h)"

section \<open>The world outside the service\<close>

text \<open>
  The service talks to a database, a random source, a clock and the uuid library. None of
  them is part of the repository. Their effects are written into a state, \<open>world\<close>: the rows
  of the \<open>payments\<close> table in insertion order, the clock, and the trace of every effect so
  far. What they answer is not decided by the service, so it is read from an \<open>env\<close>, indexed
  by the number of effects so far (the length of the trace):
  \<^item> \<open>storage_fault e k\<close>: the database statement issued as effect \<open>k\<close> fails with this message;
  \<^item> \<open>racing e k\<close>: a row that another request commits just before the statement issued as
    effect \<open>k\<close> (the database refuses it, as any insert, when it breaks a unique index);
  \<^item> \<open>gateway_fails e k\<close>: the draw \<open>rand.Float64()\<close> made as effect \<open>k\<close> is below
    \<open>FailureRate\<close> (0.3), so the simulated gateway times out;
  \<^item> \<open>uuid_New e k\<close>: the value of \<open>uuid.New()\<close> inside the insert issued as effect \<open>k\<close>;
  \<^item> \<open>uuid_Parse e s\<close>: the value of \<open>uuid.Parse(s)\<close>, \<open>None\<close> when it returns an error.

  The clock moves when the service sleeps. An event of the trace is a statement sent to
  the database (with the record it carries), a draw of the gateway, or a sleep.
\<close>

datatype event =
    DbQueryKey string
  | DbQueryID uuid
  | DbCreate Payment
  | DbSave Payment
  | Gateway bool
  | Sleep Duration

record world =
  rows :: "Payment list"
  now :: time
  trace :: "event list"

record env =
  storage_fault :: "nat \<Rightarrow> string option"
  racing :: "nat \<Rightarrow> Payment option"
  gateway_fails :: "nat \<Rightarrow> bool"
  uuid_New :: "nat \<Rightarrow> uuid"
  uuid_Parse :: "string \<Rightarrow> uuid option"

definition emit :: "event \<Rightarrow> world \<Rightarrow> world" where
  "emit ev w = w\<lparr>trace := trace w @ [ev]\<rparr>"

definition time_Sleep :: "Duration \<Rightarrow> world \<Rightarrow> world" where
  "time_Sleep d w = emit (Sleep d) (w\<lparr>now := now w + d\<rparr>)"

subsection \<open>The payments table behind gorm\<close>

text \<open>
  Modelled from the spec: the storage engine behind \<open>gorm.DB\<close> is not in the repository.
  The table follows the record store's contract (create fails on a duplicate key and
  otherwise inserts; a lookup returns the record or reports its absence; update overwrites
  the stored record by id) and the tags of \<open>model.Payment\<close>: \<open>id\<close> is the primary key,
  \<open>idempotency_key\<close> has a unique index, gorm fills \<open>CreatedAt\<close> and \<open>UpdatedAt\<close>.
  A statement that fails leaves the table as it is. The rows other requests commit pass
  the same two unique indexes.
\<close>

definition unique_violation :: "Payment list \<Rightarrow> Payment \<Rightarrow> string option" where
  "unique_violation rs p =
     (if ID p \<in> ID ` set rs then Some ''payments_pkey''
      else if IdempotencyKey p \<in> IdempotencyKey ` set rs
      then Some ''idx_payments_idempotency_key''
      else None)"

definition others_commit :: "env \<Rightarrow> world \<Rightarrow> world" where
  "others_commit e w =
     (case racing e (length (trace w)) of
        None \<Rightarrow> w
      | Some r \<Rightarrow>
          (case unique_violation (rows w) r of
             None \<Rightarrow> w\<lparr>rows := rows w @ [r]\<rparr>
           | Some c \<Rightarrow> w))"

text \<open>The hook \<open>(*Payment).BeforeCreate\<close> of payment\_model.go; it never fails.\<close>

definition BeforeCreate :: "env \<Rightarrow> world \<Rightarrow> Payment \<Rightarrow> Payment" where
  "BeforeCreate e w p =
     (if ID p = uuid_Nil then p\<lparr>ID := uuid_New e (length (trace w))\<rparr> else p)"

definition db_Create :: "env \<Rightarrow> Payment \<Rightarrow> world \<Rightarrow> error option \<times> Payment \<times> world" where
  "db_Create e p w =
     (let w1 = others_commit e w;
          p1 = BeforeCreate e w p;
          p2 = p1\<lparr>CreatedAt := (if CreatedAt p1 = 0 then now w else CreatedAt p1),
                  UpdatedAt := (if UpdatedAt p1 = 0 then now w else UpdatedAt p1)\<rparr>;
          w2 = emit (DbCreate p2) w1
      in case storage_fault e (length (trace w)) of
           Some m \<Rightarrow> (Some (StorageFault m), p2, w2)
         | None \<Rightarrow>
             (case unique_violation (rows w1) p2 of
                Some c \<Rightarrow> (Some (UniqueViolation c), p2, w2)
              | None \<Rightarrow> (None, p2, w2\<lparr>rows := rows w1 @ [p2]\<rparr>)))"

definition db_First ::
  "env \<Rightarrow> (Payment \<Rightarrow> bool) \<Rightarrow> event \<Rightarrow> world \<Rightarrow> (error + Payment) \<times> world" where
  "db_First e cond ev w =
     (let w1 = others_commit e w;
          w2 = emit ev w1
      in case storage_fault e (length (trace w)) of
           Some m \<Rightarrow> (Inl (StorageFault m), w2)
         | None \<Rightarrow>
             (case find cond (rows w1) of
                None \<Rightarrow> (Inl ErrRecordNotFound, w2)
              | Some r \<Rightarrow> (Inr r, w2)))"

definition db_Save :: "env \<Rightarrow> Payment \<Rightarrow> world \<Rightarrow> error option \<times> Payment \<times> world" where
  "db_Save e p w =
     (let w1 = others_commit e w;
          p1 = p\<lparr>UpdatedAt := now w\<rparr>;
          w2 = emit (DbSave p1) w1
      in case storage_fault e (length (trace w)) of
           Some m \<Rightarrow> (Some (StorageFault m), p1, w2)
         | None \<Rightarrow>
             (None, p1, w2\<lparr>rows := map (\<lambda>r. if ID r = ID p1 then p1 else r) (rows w1)\<rparr>))"

section \<open>The repository (payment\_repository.go)\<close>

definition Create :: "env \<Rightarrow> Payment \<Rightarrow> world \<Rightarrow> error option \<times> Payment \<times> world" where
  "Create e payment w = db_Create e payment w"

definition GetByID :: "env \<Rightarrow> uuid \<Rightarrow> world \<Rightarrow> (error + Payment) \<times> world" where
  "GetByID e id' w =
     (case db_First e (\<lambda>r. ID r = id') (DbQueryID id') w of
        (Inl err, w1) \<Rightarrow>
          (if err = ErrRecordNotFound then (Inl (ErrorString ''payment not found''), w1)
           else (Inl err, w1))
      | (Inr payment, w1) \<Rightarrow> (Inr payment, w1))"

definition GetByIdempotencyKey ::
  "env \<Rightarrow> string \<Rightarrow> world \<Rightarrow> (error + Payment option) \<times> world" where
  "GetByIdempotencyKey e key w =
     (case db_First e (\<lambda>r. IdempotencyKey r = key) (DbQueryKey key) w of
        (Inl err, w1) \<Rightarrow>
          (if err = ErrRecordNotFound then (Inr None, w1)
           else (Inl err, w1))
      | (Inr payment, w1) \<Rightarrow> (Inr (Some payment), w1))"

definition Update :: "env \<Rightarrow> Payment \<Rightarrow> world \<Rightarrow> error option \<times> Payment \<times> world" where
  "Update e payment w = db_Save e payment w"

section \<open>The service (payment\_service.go)\<close>

definition MaxRetries :: nat where
  "MaxRetries = 3"

definition MinAmount :: int where
  "MinAmount = 1"

definition MaxAmount :: int where
  "MaxAmount = 1000000"

definition validatePaymentRequest :: "CreatePaymentRequest \<Rightarrow> error option" where
  "validatePaymentRequest req =
     (if ReqAmount req < MinAmount
      then Some (ErrorString (''amount must be at least '' @ fmt_d MinAmount))
      else if ReqAmount req > MaxAmount
      then Some (ErrorString (''amount cannot exceed '' @ fmt_d MaxAmount))
      else if length (ReqCurrency req) \<noteq> 3
      then Some (ErrorString ''currency must be a 3-letter ISO code'')
      else if ReqIdempotencyKey req = ''''
      then Some (ErrorString ''idempotency key is required'')
      else if ReqUserID req = ''''
      then Some (ErrorString ''user ID is required'')
      else None)"

definition toPaymentResponse :: "Payment \<Rightarrow> PaymentResponse" where
  "toPaymentResponse payment =
     \<lparr>PaymentID = uuid_String (ID payment),
      RespStatus = Status payment,
      RespAmount = Amount payment,
      RespCurrency = Currency payment,
      RespCreatedAt = CreatedAt payment\<rparr>"

text \<open>
  One attempt. The draw of the random source is an effect (\<open>Gateway b\<close>, \<open>b\<close> true when the
  gateway timed out); an attempt that goes through sleeps 50 ms. Seeding the random source
  decides nothing but the draw, which the \<open>env\<close> gives.
\<close>

definition simulatePaymentProcessing :: "env \<Rightarrow> Payment \<Rightarrow> world \<Rightarrow> error option \<times> world" where
  "simulatePaymentProcessing e payment w =
     (if gateway_fails e (length (trace w))
      then (Some (ErrorString ''payment gateway timeout''), emit (Gateway True) w)
      else (None, time_Sleep (50 * Millisecond) (emit (Gateway False) w)))"

text \<open>
  The loop \<open>for i := 0; i < MaxRetries; i++\<close> of \<open>processPaymentWithRetry\<close>, from the
  iteration \<open>i\<close> on, with the value of \<open>lastErr\<close> and the payment as they stand.
\<close>

function retry_loop ::
  "env \<Rightarrow> nat \<Rightarrow> error option \<Rightarrow> Payment \<Rightarrow> world \<Rightarrow> error option \<times> Payment \<times> world" where
  "retry_loop e i lastErr payment w =
     (if i < MaxRetries then
        (let p1 = payment\<lparr>RetryCount := int i + 1\<rparr>
         in case simulatePaymentProcessing e p1 w of
              (Some err, w1) \<Rightarrow>
                retry_loop e (i + 1) (Some err) p1
                  (if i < MaxRetries - 1
                   then time_Sleep (int (i + 1) * 100 * Millisecond) w1
                   else w1)
            | (None, w1) \<Rightarrow>
                (case Update e (p1\<lparr>Status := StatusSuccess\<rparr>) w1 of
                   (_, p2, w2) \<Rightarrow> (None, p2, w2)))
      else
        (Some (ErrorString (''payment failed after '' @ fmt_d (int MaxRetries) @
                 '' retries: '' @ fmt_v lastErr)),
         payment, w))"
  by pat_completeness auto
termination
  by (relation "measure (\<lambda>(e, i, lastErr, payment, w). MaxRetries - i)") auto

declare retry_loop.simps [simp del]

definition processPaymentWithRetry ::
  "env \<Rightarrow> Payment \<Rightarrow> world \<Rightarrow> error option \<times> Payment \<times> world" where
  "processPaymentWithRetry e payment w = retry_loop e 0 None payment w"

text \<open>The struct literal of \<open>CreatePayment\<close>: the fields it does not name are zero.\<close>

definition newPayment :: "CreatePaymentRequest \<Rightarrow> Payment" where
  "newPayment req =
     \<lparr>ID = uuid_Nil,
      UserID = ReqUserID req,
      Amount = ReqAmount req,
      Currency = ReqCurrency req,
      Status = StatusInitiated,
      IdempotencyKey = ReqIdempotencyKey req,
      RetryCount = 0,
      FailureReason = '''',
      CreatedAt = 0,
      UpdatedAt = 0\<rparr>"

text \<open>
  \<open>CreatePayment\<close> returns \<open>(nil, err)\<close> as \<open>Inl err\<close> and \<open>(resp, nil)\<close> as \<open>Inr resp\<close>. The
  error of the two calls of \<open>s.repo.Update\<close> is dropped, as in the source. The calls of the
  logger change neither the result nor the table and are left out.
\<close>

definition CreatePayment ::
  "env \<Rightarrow> CreatePaymentRequest \<Rightarrow> world \<Rightarrow> (error + PaymentResponse) \<times> world" where
  "CreatePayment e req w =
     (case validatePaymentRequest req of
        Some err \<Rightarrow> (Inl err, w)
      | None \<Rightarrow>
          (case GetByIdempotencyKey e (ReqIdempotencyKey req) w of
             (Inl err, w1) \<Rightarrow> (Inl err, w1)
           | (Inr (Some existingPayment), w1) \<Rightarrow> (Inr (toPaymentResponse existingPayment), w1)
           | (Inr None, w1) \<Rightarrow>
               (case Create e (newPayment req) w1 of
                  (Some err, p1, w2) \<Rightarrow> (Inl err, w2)
                | (None, p1, w2) \<Rightarrow>
                    (case processPaymentWithRetry e p1 w2 of
                       (Some err, p2, w3) \<Rightarrow>
                         (case Update e (p2\<lparr>Status := StatusFailed,
                                            FailureReason := Error err\<rparr>) w3 of
                            (_, p3, w4) \<Rightarrow> (Inr (toPaymentResponse p3), w4))
                     | (None, p2, w3) \<Rightarrow> (Inr (toPaymentResponse p2), w3)))))"

definition GetPayment :: "env \<Rightarrow> string \<Rightarrow> world \<Rightarrow> (error + PaymentResponse) \<times> world" where
  "GetPayment e paymentID w =
     (case uuid_Parse e paymentID of
        None \<Rightarrow> (Inl (ErrorString ''invalid payment ID format''), w)
      | Some id' \<Rightarrow>
          (case GetByID e id' w of
             (Inl err, w1) \<Rightarrow> (Inl err, w1)
           | (Inr payment, w1) \<Rightarrow> (Inr (toPaymentResponse payment), w1)))"

section \<open>The validation rules as the specification lists them\<close>

text \<open>
  The five rules in the order of the specification, what each of them demands of a
  request, and the first rule a request violates. \<open>violation\<close> is the message reported for
  a rule. The third rule is read on the bytes of the currency, as the code tests it; the
  characters of the currency are counted by \<open>RuneCountInString\<close> below.
\<close>

datatype rule =
    AmountAtLeastMin
  | AmountAtMostMax
  | CurrencyThreeBytes
  | IdempotencyKeyNonEmpty
  | UserIdNonEmpty

fun satisfies :: "CreatePaymentRequest \<Rightarrow> rule \<Rightarrow> bool" where
  "satisfies req AmountAtLeastMin = (1 \<le> ReqAmount req)"
| "satisfies req AmountAtMostMax = (ReqAmount req \<le> 1000000)"
| "satisfies req CurrencyThreeBytes = (length (ReqCurrency req) = 3)"
| "satisfies req IdempotencyKeyNonEmpty = (ReqIdempotencyKey req \<noteq> [])"
| "satisfies req UserIdNonEmpty = (ReqUserID req \<noteq> [])"

definition first_violated :: "CreatePaymentRequest \<Rightarrow> rule option" where
  "first_violated req =
     find (\<lambda>r. \<not> satisfies req r)
       [AmountAtLeastMin, AmountAtMostMax, CurrencyThreeBytes, IdempotencyKeyNonEmpty,
        UserIdNonEmpty]"

fun violation :: "rule \<Rightarrow> error" where
  "violation AmountAtLeastMin = ErrorString ''amount must be at least 1''"
| "violation AmountAtMostMax = ErrorString ''amount cannot exceed 1000000''"
| "violation CurrencyThreeBytes = ErrorString ''currency must be a 3-letter ISO code''"
| "violation IdempotencyKeyNonEmpty = ErrorString ''idempotency key is required''"
| "violation UserIdNonEmpty = ErrorString ''user ID is required''"

section \<open>The characters of a Go string\<close>

text \<open>
  A Go string is a sequence of bytes, and \<open>len\<close> is their number. Its characters are the
  code points of its UTF-8 text, which the standard library counts with
  \<open>utf8.RuneCountInString\<close>: a byte below 128 is one character, a well-formed sequence of
  two, three or four bytes is one character, and a byte that starts no well-formed
  sequence counts as one. \<open>runeSize c\<close> is the length of the sequence that the byte \<open>c\<close>
  starts (0 when it starts none), \<open>acceptLo c\<close> and \<open>acceptHi c\<close> bound its second byte, and
  \<open>trail c bs\<close> is the number of bytes of \<open>bs\<close> that belong to the character starting with \<open>c\<close>.
\<close>

definition runeSize :: "nat \<Rightarrow> nat" where
  "runeSize c =
     (if c < 128 then 1
      else if 194 \<le> c \<and> c \<le> 223 then 2
      else if 224 \<le> c \<and> c \<le> 239 then 3
      else if 240 \<le> c \<and> c \<le> 244 then 4
      else 0)"

definition acceptLo :: "nat \<Rightarrow> nat" where
  "acceptLo c = (if c = 224 then 160 else if c = 240 then 144 else 128)"

definition acceptHi :: "nat \<Rightarrow> nat" where
  "acceptHi c = (if c = 237 then 159 else if c = 244 then 143 else 191)"

definition trail :: "nat \<Rightarrow> nat list \<Rightarrow> nat" where
  "trail c bs =
     (if runeSize c < 2 \<or> length bs < runeSize c - 1 then 0
      else if bs ! 0 < acceptLo c \<or> acceptHi c < bs ! 0 then 0
      else if runeSize c = 2 then 1
      else if bs ! 1 < 128 \<or> 191 < bs ! 1 then 0
      else if runeSize c = 3 then 2
      else if bs ! 2 < 128 \<or> 191 < bs ! 2 then 0
      else 3)"

function RuneCount :: "nat list \<Rightarrow> nat" where
  "RuneCount [] = 0"
| "RuneCount (c # bs) = Suc (RuneCount (drop (trail c bs) bs))"
  by pat_completeness auto
termination
  by (relation "measure length") simp_all

definition RuneCountInString :: "string \<Rightarrow> nat" where
  "RuneCountInString s = RuneCount (map of_char s)"

section \<open>Reading the table and the trace\<close>

text \<open>
  \<open>saves\<close> lists the records handed to \<open>Update\<close> in a trace, in order. \<open>sole_row p rs\<close> says
  that exactly one row of \<open>rs\<close> has the id or the idempotency key of \<open>p\<close>, and that it has
  both, and the amount and the currency of \<open>p\<close>.
\<close>

fun saves :: "event list \<Rightarrow> Payment list" where
  "saves [] = []"
| "saves (DbSave q # evs) = q # saves evs"
| "saves (ev # evs) = saves evs"

definition sole_row :: "Payment \<Rightarrow> Payment list \<Rightarrow> bool" where
  "sole_row p rs =
     (case filter (\<lambda>r. ID r = ID p \<or> IdempotencyKey r = IdempotencyKey p) rs of
        [r] \<Rightarrow> ID r = ID p \<and> IdempotencyKey r = IdempotencyKey p \<and>
               Amount r = Amount p \<and> Currency r = Currency p
      | _ \<Rightarrow> False)"

section \<open>Scenarios\<close>

text \<open>
  Concrete surroundings for the examples: requests, an empty table, and behaviours of the
  outside world. In \<open>env_quiet\<close> nothing goes wrong; in \<open>env_gateway_down\<close> every attempt
  times out; in \<open>env_race\<close> another request with the key \<open>k1\<close> commits its row between the
  lookup (effect 0) and the insert (effect 1); in \<open>env_db_down\<close> every statement fails, in
  \<open>env_create_fault\<close> the insert (effect 1), and in \<open>env_save_fault\<close> the update that follows
  a first successful attempt (effect 4). The worlds are the ones the request \<open>req_k1\<close>
  passes through from \<open>w_empty\<close>: after the lookup, after the insert, after a first attempt
  that goes through (\<open>w_paid\<close>), after three attempts that fail (\<open>w_refused\<close>).
\<close>

definition req_k1 :: CreatePaymentRequest where
  "req_k1 =
     \<lparr>ReqIdempotencyKey = ''k1'', ReqAmount = 10000, ReqCurrency = ''INR'', ReqUserID = ''u1''\<rparr>"

definition req_k1_altered :: CreatePaymentRequest where
  "req_k1_altered = req_k1\<lparr>ReqAmount := 77, ReqCurrency := ''USD'', ReqUserID := ''u2''\<rparr>"

definition req_k2 :: CreatePaymentRequest where
  "req_k2 = req_k1\<lparr>ReqIdempotencyKey := ''k2''\<rparr>"

text \<open>
  Two currencies that are not ASCII: the euro sign, one character of three bytes, and
  three times the letter e with an acute accent, three characters of two bytes each.
\<close>

definition req_euro :: CreatePaymentRequest where
  "req_euro = req_k1\<lparr>ReqCurrency := [CHR 0xE2, CHR 0x82, CHR 0xAC]\<rparr>"

definition req_accents :: CreatePaymentRequest where
  "req_accents =
     req_k1\<lparr>ReqCurrency := [CHR 0xC3, CHR 0xA9, CHR 0xC3, CHR 0xA9, CHR 0xC3, CHR 0xA9]\<rparr>"

definition w_empty :: world where
  "w_empty = \<lparr>rows = [], now = 5, trace = []\<rparr>"

definition env_quiet :: env where
  "env_quiet =
     \<lparr>storage_fault = (\<lambda>k. None),
      racing = (\<lambda>k. None),
      gateway_fails = (\<lambda>k. False),
      uuid_New = (\<lambda>k. of_nat k + 6),
      uuid_Parse =
        (\<lambda>s. if s = ''00000000-0000-0000-0000-000000000007'' then Some 7 else None)\<rparr>"

definition env_gateway_down :: env where
  "env_gateway_down = env_quiet\<lparr>gateway_fails := (\<lambda>k. True)\<rparr>"

definition env_race :: env where
  "env_race =
     env_quiet\<lparr>racing := (\<lambda>k. if k = 1 then Some ((newPayment req_k1)\<lparr>ID := 9\<rparr>) else None)\<rparr>"

definition env_db_down :: env where
  "env_db_down = env_quiet\<lparr>storage_fault := (\<lambda>k. Some ''connection lost'')\<rparr>"



definition row_new :: Payment where
  "row_new = (newPayment req_k1)\<lparr>ID := 7, CreatedAt := 5, UpdatedAt := 5\<rparr>"

definition row_paid :: Payment where
  "row_paid =
     row_new\<lparr>RetryCount := 1, Status := StatusSuccess, UpdatedAt := 5 + 50 * Millisecond\<rparr>"

definition row_refused :: Payment where
  "row_refused =
     row_new\<lparr>RetryCount := 3, Status := StatusFailed,
       FailureReason := ''payment failed after 3 retries: payment gateway timeout'',
       UpdatedAt := 5 + 300 * Millisecond\<rparr>"

definition w_looked :: world where
  "w_looked = \<lparr>rows = [], now = 5, trace = [DbQueryKey ''k1'']\<rparr>"

definition w_created :: world where
  "w_created = \<lparr>rows = [row_new], now = 5, trace = [DbQueryKey ''k1'', DbCreate row_new]\<rparr>"

definition w_paid :: world where
  "w_paid =
     \<lparr>rows = [row_paid], now = 5 + 50 * Millisecond,
      trace = [DbQueryKey ''k1'', DbCreate row_new, Gateway False, Sleep (50 * Millisecond),
               DbSave row_paid]\<rparr>"

definition resp_paid :: PaymentResponse where
  "resp_paid =
     \<lparr>PaymentID = ''00000000-0000-0000-0000-000000000007'', RespStatus = ''SUCCESS'',
      RespAmount = 10000, RespCurrency = ''INR'', RespCreatedAt = 5\<rparr>"

definition w_refused :: world where
  "w_refused =
     \<lparr>rows = [row_refused], now = 5 + 300 * Millisecond,
      trace = [DbQueryKey ''k1'', DbCreate row_new, Gateway True, Sleep (100 * Millisecond),
               Gateway True, Sleep (200 * Millisecond), Gateway True, DbSave row_refused]\<rparr>"

section \<open>Basic facts\<close>

lemma fmt_d_values:
  "fmt_d 1 = ''1''" "fmt_d 1000000 = ''1000000''" "fmt_d 3 = ''3''"
  by (simp_all add: fmt_d_def digits10.simps)

lemma emit_fields [simp]:
  "rows (emit ev w) = rows w" "now (emit ev w) = now w" "trace (emit ev w) = trace w @ [ev]"
  by (simp_all add: emit_def)

lemma time_Sleep_fields [simp]:
  "rows (time_Sleep d w) = rows w" "now (time_Sleep d w) = now w + d"
  "trace (time_Sleep d w) = trace w @ [Sleep d]"
  by (simp_all add: time_Sleep_def)

lemma others_commit_fields [simp]:
  "now (others_commit e w) = now w" "trace (others_commit e w) = trace w"
  by (simp_all add: others_commit_def split: option.splits)

lemma others_commit_rows: "\<exists>added. rows (others_commit e w) = rows w @ added"
  by (simp add: others_commit_def split: option.splits)

subsection \<open>The repository\<close>

lemma GetByIdempotencyKey_world:
  "GetByIdempotencyKey e key w = (res, w1) \<Longrightarrow> w1 = emit (DbQueryKey key) (others_commit e w)"
  by (auto simp: GetByIdempotencyKey_def db_First_def Let_def split: option.splits if_splits)

lemma GetByID_world:
  "GetByID e i w = (res, w1) \<Longrightarrow> w1 = emit (DbQueryID i) (others_commit e w)"
  by (auto simp: GetByID_def db_First_def Let_def split: option.splits if_splits)

lemma Create_trace:
  "Create e p w = (res, p1, w1) \<Longrightarrow> trace w1 = trace w @ [DbCreate p1] \<and> now w1 = now w"
  by (auto simp: Create_def db_Create_def Let_def split: option.splits)

lemma Create_ok:
  "Create e p w = (None, p1, w2) \<Longrightarrow>
     rows w2 = rows (others_commit e w) @ [p1] \<and>
     unique_violation (rows (others_commit e w)) p1 = None \<and>
     IdempotencyKey p1 = IdempotencyKey p \<and> Amount p1 = Amount p \<and>
     Currency p1 = Currency p \<and> Status p1 = Status p"
  by (auto simp: Create_def db_Create_def Let_def BeforeCreate_def split: option.splits if_splits)

lemma Update_proj:
  "trace (snd (snd (Update e p w))) = trace w @ [DbSave (p\<lparr>UpdatedAt := now w\<rparr>)]"
  "now (snd (snd (Update e p w))) = now w"
  "fst (snd (Update e p w)) = p\<lparr>UpdatedAt := now w\<rparr>"
  by (simp_all add: Update_def db_Save_def Let_def split: option.splits)

lemma Update_rows:
  "rows (snd (snd (Update e p w))) =
     (case storage_fault e (length (trace w)) of
        Some m \<Rightarrow> rows (others_commit e w)
      | None \<Rightarrow> map (\<lambda>r. if ID r = ID p then p\<lparr>UpdatedAt := now w\<rparr> else r)
                  (rows (others_commit e w)))"
  by (simp add: Update_def db_Save_def Let_def split: option.splits)

subsection \<open>The iterations of the retry loop\<close>

lemma retry_loop_fail:
  assumes "i < MaxRetries" and "gateway_fails e (length (trace w))"
  shows "retry_loop e i lastErr p w =
           retry_loop e (i + 1) (Some (ErrorString ''payment gateway timeout''))
             (p\<lparr>RetryCount := int i + 1\<rparr>)
             (if i < MaxRetries - 1
              then time_Sleep (int (i + 1) * 100 * Millisecond) (emit (Gateway True) w)
              else emit (Gateway True) w)"
  using assms by (subst retry_loop.simps) (simp add: simulatePaymentProcessing_def)

lemma retry_loop_ok:
  assumes "i < MaxRetries" and "\<not> gateway_fails e (length (trace w))"
  shows "retry_loop e i lastErr p w =
           (None, snd (Update e (p\<lparr>RetryCount := int i + 1, Status := StatusSuccess\<rparr>)
                         (time_Sleep (50 * Millisecond) (emit (Gateway False) w))))"
  using assms
  by (subst retry_loop.simps) (simp add: simulatePaymentProcessing_def split: prod.splits)

lemma retry_loop_exit:
  assumes "\<not> i < MaxRetries"
  shows "retry_loop e i lastErr p w =
           (Some (ErrorString (''payment failed after 3 retries: '' @ fmt_v lastErr)), p, w)"
  using assms
  by (subst retry_loop.simps) (simp add: MaxRetries_def fmt_d_values)

text \<open>
  The four runs of the loop: the first attempt goes through, the second, the third, or
  none does. The attempts are the effects number 0, 2 and 4 after the start of the loop.
\<close>

lemma run_ok1:
  assumes "\<not> gateway_fails e (length (trace w))"
  shows "processPaymentWithRetry e p w =
     (None, snd (Update e (p\<lparr>RetryCount := 1, Status := StatusSuccess\<rparr>)
        (time_Sleep (50 * Millisecond) (emit (Gateway False) w))))"
  using assms by (simp add: processPaymentWithRetry_def retry_loop_ok MaxRetries_def)

lemma run_ok2:
  assumes "gateway_fails e (length (trace w))"
      and "\<not> gateway_fails e (length (trace w) + 2)"
  shows "processPaymentWithRetry e p w =
     (None, snd (Update e (p\<lparr>RetryCount := 2, Status := StatusSuccess\<rparr>)
        (time_Sleep (50 * Millisecond) (emit (Gateway False)
          (time_Sleep (100 * Millisecond) (emit (Gateway True) w))))))"
  using assms
  by (simp add: processPaymentWithRetry_def retry_loop_fail retry_loop_ok MaxRetries_def)

lemma run_ok3:
  assumes "gateway_fails e (length (trace w))"
      and "gateway_fails e (length (trace w) + 2)"
      and "\<not> gateway_fails e (length (trace w) + 4)"
  shows "processPaymentWithRetry e p w =
     (None, snd (Update e (p\<lparr>RetryCount := 3, Status := StatusSuccess\<rparr>)
        (time_Sleep (50 * Millisecond) (emit (Gateway False)
          (time_Sleep (200 * Millisecond) (emit (Gateway True)
            (time_Sleep (100 * Millisecond) (emit (Gateway True) w))))))))"
  using assms
  by (simp add: processPaymentWithRetry_def retry_loop_fail retry_loop_ok MaxRetries_def
      eval_nat_numeral)

lemma run_exhausted:
  assumes "gateway_fails e (length (trace w))"
      and "gateway_fails e (length (trace w) + 2)"
      and "gateway_fails e (length (trace w) + 4)"
  shows "processPaymentWithRetry e p w =
     (Some (ErrorString ''payment failed after 3 retries: payment gateway timeout''),
      p\<lparr>RetryCount := 3\<rparr>,
      emit (Gateway True)
        (time_Sleep (200 * Millisecond) (emit (Gateway True)
          (time_Sleep (100 * Millisecond) (emit (Gateway True) w)))))"
  using assms
  by (simp add: processPaymentWithRetry_def retry_loop_fail retry_loop_exit MaxRetries_def
      fmt_v_def eval_nat_numeral)

lemma run_cases:
  obtains (first) "\<not> gateway_fails e (length (trace w))"
  | (second) "gateway_fails e (length (trace w))" "\<not> gateway_fails e (length (trace w) + 2)"
  | (third) "gateway_fails e (length (trace w))" "gateway_fails e (length (trace w) + 2)"
      "\<not> gateway_fails e (length (trace w) + 4)"
  | (none) "gateway_fails e (length (trace w))" "gateway_fails e (length (trace w) + 2)"
      "gateway_fails e (length (trace w) + 4)"
  by blast

subsection \<open>Rows that stay, and the row of a payment\<close>

lemma find_append_Some: "find P xs = Some x \<Longrightarrow> find P (xs @ ys) = Some x"
  by (induction xs) (auto split: if_splits)

lemma find_filter_weaker:
  "(\<And>x. Q x \<Longrightarrow> P x) \<Longrightarrow> find Q (filter P xs) = find Q xs"
  by (induction xs) auto

lemma find_others_commit:
  "find P (rows w) = Some x \<Longrightarrow> find P (rows (others_commit e w)) = Some x"
  using others_commit_rows [of e w] by (auto simp: find_append_Some)

lemma nth_others_commit:
  "i < length (rows w) \<Longrightarrow>
     i < length (rows (others_commit e w)) \<and> rows (others_commit e w) ! i = rows w ! i"
  using others_commit_rows [of e w] by (auto simp: nth_append)

lemma sole_row_find:
  assumes "sole_row p rs"
  shows "\<exists>r. find (\<lambda>r. IdempotencyKey r = IdempotencyKey p) rs = Some r \<and> ID r = ID p \<and>
           Amount r = Amount p \<and> Currency r = Currency p"
proof -
  let ?P = "\<lambda>r. ID r = ID p \<or> IdempotencyKey r = IdempotencyKey p"
  from assms obtain r where r: "filter ?P rs = [r]" "ID r = ID p"
    "IdempotencyKey r = IdempotencyKey p" "Amount r = Amount p" "Currency r = Currency p"
    by (auto simp: sole_row_def split: list.splits)
  have "find (\<lambda>r. IdempotencyKey r = IdempotencyKey p) rs =
        find (\<lambda>r. IdempotencyKey r = IdempotencyKey p) (filter ?P rs)"
    by (rule find_filter_weaker [symmetric]) simp
  with r show ?thesis by simp
qed

lemma sole_row_member:
  "sole_row p rs \<Longrightarrow> \<exists>r \<in> set rs. ID r = ID p \<and> IdempotencyKey r = IdempotencyKey p"
proof -
  assume a: "sole_row p rs"
  let ?P = "\<lambda>r. ID r = ID p \<or> IdempotencyKey r = IdempotencyKey p"
  from a obtain r where r: "filter ?P rs = [r]" "ID r = ID p"
    "IdempotencyKey r = IdempotencyKey p"
    by (auto simp: sole_row_def split: list.splits)
  then have "r \<in> set (filter ?P rs)" by simp
  then have "r \<in> set rs" by simp
  with r show ?thesis by blast
qed

lemma sole_row_others_commit:
  assumes "sole_row p (rows w)"
  shows "sole_row p (rows (others_commit e w))"
proof (cases "racing e (length (trace w))")
  case None
  with assms show ?thesis by (simp add: others_commit_def)
next
  case (Some r)
  show ?thesis
  proof (cases "unique_violation (rows w) r")
    case None
    from sole_row_member [OF assms] obtain r0 where r0: "r0 \<in> set (rows w)" "ID r0 = ID p"
      "IdempotencyKey r0 = IdempotencyKey p" by blast
    from None have "ID r \<notin> ID ` set (rows w)" "IdempotencyKey r \<notin> IdempotencyKey ` set (rows w)"
      by (auto simp: unique_violation_def split: if_splits)
    with r0 have "ID r \<noteq> ID p \<and> IdempotencyKey r \<noteq> IdempotencyKey p"
      by (metis image_eqI)
    with assms Some None show ?thesis
      by (simp add: others_commit_def sole_row_def)
  next
    case (Some c)
    with \<open>racing e (length (trace w)) = Some r\<close> assms show ?thesis
      by (simp add: others_commit_def)
  qed
qed

lemma sole_row_map:
  assumes "sole_row p rs" and "ID q = ID p" and "IdempotencyKey q = IdempotencyKey p"
      and "Amount q = Amount p" and "Currency q = Currency p"
  shows "sole_row p (map (\<lambda>r. if ID r = ID q then q else r) rs)"
proof -
  let ?P = "\<lambda>r. ID r = ID p \<or> IdempotencyKey r = IdempotencyKey p"
  let ?f = "\<lambda>r. if ID r = ID q then q else r"
  have "filter ?P (map ?f rs) = map ?f (filter ?P rs)"
    using assms(2,3) by (induction rs) auto
  with assms show ?thesis
    by (auto simp: sole_row_def split: list.splits)
qed

lemma sole_row_Update:
  assumes "sole_row p (rows w)" and "ID q = ID p" and "IdempotencyKey q = IdempotencyKey p"
      and "Amount q = Amount p" and "Currency q = Currency p"
  shows "sole_row p (rows (snd (snd (Update e q w))))"
proof -
  have "sole_row p (map (\<lambda>r. if ID r = ID (q\<lparr>UpdatedAt := now w\<rparr>) then q\<lparr>UpdatedAt := now w\<rparr> else r)
          (rows (others_commit e w)))"
    using assms by (intro sole_row_map sole_row_others_commit) simp_all
  then show ?thesis
    using sole_row_others_commit [OF assms(1), of e]
    by (simp add: Update_rows split: option.splits)
qed

lemma sole_row_Create:
  assumes "Create e p w = (None, p1, w2)"
  shows "sole_row p1 (rows w2)"
proof -
  from Create_ok [OF assms] have r: "rows w2 = rows (others_commit e w) @ [p1]"
    and u: "unique_violation (rows (others_commit e w)) p1 = None" by simp_all
  from u have "ID p1 \<notin> ID ` set (rows (others_commit e w))"
    "IdempotencyKey p1 \<notin> IdempotencyKey ` set (rows (others_commit e w))"
    by (auto simp: unique_violation_def split: if_splits)
  then have "filter (\<lambda>r. ID r = ID p1 \<or> IdempotencyKey r = IdempotencyKey p1)
               (rows (others_commit e w)) = []"
    unfolding filter_empty_conv by (metis image_eqI)
  with r show ?thesis by (simp add: sole_row_def)
qed

lemma overwrite_member:
  "x \<in> set xs \<Longrightarrow> ID x = i \<Longrightarrow> q \<in> set (map (\<lambda>r. if ID r = i then q else r) xs)"
  by (induction xs) auto

lemma nth_Update:
  assumes "i < length (rows w)" and "ID (rows w ! i) \<noteq> ID q"
  shows "i < length (rows (snd (snd (Update e q w)))) \<and>
         rows (snd (snd (Update e q w))) ! i = rows w ! i"
  using assms nth_others_commit [OF assms(1), of e]
  by (simp add: Update_rows split: option.splits)

subsection \<open>What a run of the loop keeps\<close>

lemma run_invariant:
  assumes upd: "\<And>q w0. ID q = ID p \<Longrightarrow> IdempotencyKey q = IdempotencyKey p \<Longrightarrow>
                  Amount q = Amount p \<Longrightarrow> Currency q = Currency p \<Longrightarrow>
                  I (rows w0) \<Longrightarrow> I (rows (snd (snd (Update e q w0))))"
      and "I (rows w)"
  shows "I (rows (snd (snd (processPaymentWithRetry e p w))))"
proof (cases rule: run_cases [of e w])
  case first
  then show ?thesis using assms(2) by (simp add: run_ok1 upd)
next
  case second
  then show ?thesis using assms(2) by (simp add: run_ok2 upd)
next
  case third
  then show ?thesis using assms(2) by (simp add: run_ok3 upd)
next
  case none
  then show ?thesis using assms(2) by (simp add: run_exhausted)
qed

lemma run_payment:
  "\<exists>r q w'. processPaymentWithRetry e p w = (r, q, w') \<and> ID q = ID p \<and>
     IdempotencyKey q = IdempotencyKey p \<and> Amount q = Amount p \<and> Currency q = Currency p \<and>
     CreatedAt q = CreatedAt p \<and>
     (case r of None \<Rightarrow> Status q = StatusSuccess | Some err \<Rightarrow> Status q = Status p)"
proof (cases rule: run_cases [of e w])
  case first
  then show ?thesis by (simp add: run_ok1 Update_proj prod_eq_iff)
next
  case second
  then show ?thesis by (simp add: run_ok2 Update_proj prod_eq_iff)
next
  case third
  then show ?thesis by (simp add: run_ok3 Update_proj prod_eq_iff)
next
  case none
  then show ?thesis by (simp add: run_exhausted)
qed

lemma nth_run:
  assumes "i < length (rows w)" and "ID (rows w ! i) \<noteq> ID p"
  shows "i < length (rows (snd (snd (processPaymentWithRetry e p w)))) \<and>
         rows (snd (snd (processPaymentWithRetry e p w))) ! i = rows w ! i"
proof -
  let ?I = "\<lambda>rs. i < length rs \<and> rs ! i = rows w ! i"
  have "?I (rows (snd (snd (processPaymentWithRetry e p w))))"
  proof (rule run_invariant)
    fix q :: Payment and w0 :: world
    assume "ID q = ID p" and "?I (rows w0)"
    with assms(2) nth_Update [of i w0 q e]
    show "?I (rows (snd (snd (Update e q w0))))" by simp
  qed (simp add: assms(1))
  then show ?thesis .
qed

lemma saves_append: "saves (xs @ ys) = saves xs @ saves ys"
  by (induction xs rule: saves.induct) simp_all

lemma run_saves:
  "\<exists>r q w'. processPaymentWithRetry e p w = (r, q, w') \<and>
     saves (trace w') = saves (trace w) @ (case r of None \<Rightarrow> [q] | Some err \<Rightarrow> [])"
proof (cases rule: run_cases [of e w])
  case first
  then show ?thesis by (simp add: run_ok1 Update_proj prod_eq_iff saves_append)
next
  case second
  then show ?thesis by (simp add: run_ok2 Update_proj prod_eq_iff saves_append)
next
  case third
  then show ?thesis by (simp add: run_ok3 Update_proj prod_eq_iff saves_append)
next
  case none
  then show ?thesis by (simp add: run_exhausted saves_append)
qed

subsection \<open>The paths through \<open>CreatePayment\<close> and \<open>GetPayment\<close>\<close>

lemma GetByIdempotencyKey_found:
  "GetByIdempotencyKey e k w = (Inr (Some ex), w1) \<Longrightarrow>
     find (\<lambda>r. IdempotencyKey r = k) (rows (others_commit e w)) = Some ex \<and>
     storage_fault e (length (trace w)) = None"
  by (auto simp: GetByIdempotencyKey_def db_First_def Let_def split: option.splits if_splits)

lemma GetByIdempotencyKey_lookup:
  assumes "storage_fault e (length (trace w)) = None"
      and "find (\<lambda>r. IdempotencyKey r = k) (rows (others_commit e w)) = Some ex"
  shows "GetByIdempotencyKey e k w = (Inr (Some ex), emit (DbQueryKey k) (others_commit e w))"
  using assms by (simp add: GetByIdempotencyKey_def db_First_def Let_def)

lemma GetByIdempotencyKey_fault:
  assumes "storage_fault e (length (trace w)) = Some m"
  shows "GetByIdempotencyKey e k w = (Inl (StorageFault m), emit (DbQueryKey k) (others_commit e w))"
  using assms by (simp add: GetByIdempotencyKey_def db_First_def Let_def)


lemma CreatePayment_existing:
  assumes "validatePaymentRequest req = None"
      and "GetByIdempotencyKey e (ReqIdempotencyKey req) w = (Inr (Some ex), w1)"
  shows "CreatePayment e req w = (Inr (toPaymentResponse ex), w1)"
  using assms by (simp add: CreatePayment_def)

lemma CreatePayment_created:
  assumes "validatePaymentRequest req = None"
      and "GetByIdempotencyKey e (ReqIdempotencyKey req) w = (Inr None, w1)"
      and "Create e (newPayment req) w1 = (None, p1, w2)"
      and "processPaymentWithRetry e p1 w2 = (r, p2, w3)"
  shows "CreatePayment e req w =
     (case r of
        None \<Rightarrow> (Inr (toPaymentResponse p2), w3)
      | Some err \<Rightarrow>
          (Inr (toPaymentResponse
                 (p2\<lparr>Status := StatusFailed, FailureReason := Error err, UpdatedAt := now w3\<rparr>)),
           snd (snd (Update e (p2\<lparr>Status := StatusFailed, FailureReason := Error err\<rparr>) w3))))"
proof (cases r)
  case None
  with assms show ?thesis by (simp add: CreatePayment_def)
next
  case (Some err)
  obtain u p3 w4 where u: "Update e (p2\<lparr>Status := StatusFailed, FailureReason := Error err\<rparr>) w3
      = (u, p3, w4)"
    by (metis prod_cases3)
  from Update_proj(3) [of e "p2\<lparr>Status := StatusFailed, FailureReason := Error err\<rparr>" w3] u
  have "p3 = p2\<lparr>Status := StatusFailed, FailureReason := Error err, UpdatedAt := now w3\<rparr>"
    by simp
  with assms Some u show ?thesis by (simp add: CreatePayment_def)
qed

lemma CreatePayment_stores:
  assumes "CreatePayment e req w = (Inr resp, w')"
  shows "\<exists>r. find (\<lambda>r. IdempotencyKey r = ReqIdempotencyKey req) (rows w') = Some r \<and>
           PaymentID resp = uuid_String (ID r) \<and> RespAmount resp = Amount r \<and>
           RespCurrency resp = Currency r"
proof -
  let ?k = "ReqIdempotencyKey req"
  from assms have v: "validatePaymentRequest req = None"
    by (auto simp: CreatePayment_def split: option.splits)
  obtain l w1 where l: "GetByIdempotencyKey e ?k w = (l, w1)"
    by (metis surj_pair)
  note w1 = GetByIdempotencyKey_world [OF l]
  show ?thesis
  proof (cases l)
    case (Inl err)
    with assms v l show ?thesis by (simp add: CreatePayment_def)
  next
    case (Inr found)
    show ?thesis
    proof (cases found)
      case (Some ex)
      with Inr l have l': "GetByIdempotencyKey e ?k w = (Inr (Some ex), w1)" by simp
      from CreatePayment_existing [OF v l'] assms
      have "resp = toPaymentResponse ex" "w' = w1" by simp_all
      with GetByIdempotencyKey_found [OF l'] w1 show ?thesis
        by (simp add: toPaymentResponse_def)
    next
      case None
      with Inr l have l': "GetByIdempotencyKey e ?k w = (Inr None, w1)" by simp
      obtain c p1 w2 where c: "Create e (newPayment req) w1 = (c, p1, w2)"
        by (metis prod_cases3)
      show ?thesis
      proof (cases c)
        case (Some err)
        with assms v l' c show ?thesis by (simp add: CreatePayment_def)
      next
        case None
        with c have c': "Create e (newPayment req) w1 = (None, p1, w2)" by simp
        from Create_ok [OF c'] have k1: "IdempotencyKey p1 = ?k"
          by (simp add: newPayment_def)
        obtain r p2 w3 where run: "processPaymentWithRetry e p1 w2 = (r, p2, w3)"
          and p2: "ID p2 = ID p1" "IdempotencyKey p2 = IdempotencyKey p1"
            "Amount p2 = Amount p1" "Currency p2 = Currency p1"
          using run_payment [of e p1 w2] by blast
        have "sole_row p1 (rows (snd (snd (processPaymentWithRetry e p1 w2))))"
          by (rule run_invariant) (simp_all add: sole_row_Update sole_row_Create [OF c'])
        with run have s3: "sole_row p1 (rows w3)" by simp
        note cp = CreatePayment_created [OF v l' c' run]
        show ?thesis
        proof (cases r)
          case None
          with cp assms have "resp = toPaymentResponse p2" "w' = w3" by simp_all
          with sole_row_find [OF s3] p2 k1 show ?thesis
            by (auto simp: toPaymentResponse_def)
        next
          case (Some err)
          let ?q = "p2\<lparr>Status := StatusFailed, FailureReason := Error err\<rparr>"
          from Some cp assms have "resp = toPaymentResponse (?q\<lparr>UpdatedAt := now w3\<rparr>)"
            "w' = snd (snd (Update e ?q w3))" by simp_all
          moreover have "sole_row p1 (rows (snd (snd (Update e ?q w3))))"
            using s3 p2 by (intro sole_row_Update) simp_all
          ultimately show ?thesis
            using sole_row_find [of p1 "rows w'"] p2 k1
            by (auto simp: toPaymentResponse_def)
        qed
      qed
    qed
  qed
qed

lemma CreatePayment_from_request:
  assumes "CreatePayment e req w = (Inr resp, w')"
      and "find (\<lambda>r. IdempotencyKey r = ReqIdempotencyKey req) (rows (others_commit e w)) = None"
  shows "RespAmount resp = ReqAmount req \<and> RespCurrency resp = ReqCurrency req"
proof -
  let ?k = "ReqIdempotencyKey req"
  from assms(1) have v: "validatePaymentRequest req = None"
    by (auto simp: CreatePayment_def split: option.splits)
  obtain l w1 where l: "GetByIdempotencyKey e ?k w = (l, w1)"
    by (metis surj_pair)
  show ?thesis
  proof (cases l)
    case (Inl err)
    with assms(1) v l show ?thesis by (simp add: CreatePayment_def)
  next
    case (Inr found)
    show ?thesis
    proof (cases found)
      case (Some ex)
      with Inr l have "GetByIdempotencyKey e ?k w = (Inr (Some ex), w1)" by simp
      from GetByIdempotencyKey_found [OF this] assms(2) show ?thesis by simp
    next
      case None
      with Inr l have l': "GetByIdempotencyKey e ?k w = (Inr None, w1)" by simp
      obtain c p1 w2 where c: "Create e (newPayment req) w1 = (c, p1, w2)"
        by (metis prod_cases3)
      show ?thesis
      proof (cases c)
        case (Some err)
        with assms(1) v l' c show ?thesis by (simp add: CreatePayment_def)
      next
        case None
        with c have c': "Create e (newPayment req) w1 = (None, p1, w2)" by simp
        from Create_ok [OF c'] have p1: "Amount p1 = ReqAmount req" "Currency p1 = ReqCurrency req"
          by (simp_all add: newPayment_def)
        obtain r p2 w3 where run: "processPaymentWithRetry e p1 w2 = (r, p2, w3)"
          and p2: "Amount p2 = Amount p1" "Currency p2 = Currency p1"
          using run_payment [of e p1 w2] by blast
        from CreatePayment_created [OF v l' c' run] assms(1) p1 p2 show ?thesis
          by (cases r) (auto simp: toPaymentResponse_def)
      qed
    qed
  qed
qed

lemma RuneCount_ascii: "\<forall>b \<in> set bs. b < 128 \<Longrightarrow> RuneCount bs = length bs"
  by (induction bs) (simp_all add: trail_def runeSize_def)

lemma CreatePayment_valid:
  "CreatePayment e req w = (Inr resp, w') \<Longrightarrow> validatePaymentRequest req = None"
  by (auto simp: CreatePayment_def split: option.splits)

lemma CreatePayment_lookup_fault:
  assumes "validatePaymentRequest req = None"
      and "storage_fault e (length (trace w)) = Some m"
  shows "CreatePayment e req w =
           (Inl (StorageFault m), emit (DbQueryKey (ReqIdempotencyKey req)) (others_commit e w))"
  using assms by (simp add: CreatePayment_def GetByIdempotencyKey_fault)

lemma CreatePayment_repeat:
  assumes "validatePaymentRequest req = None"
      and "storage_fault e (length (trace w)) = None"
      and "find (\<lambda>r. IdempotencyKey r = ReqIdempotencyKey req) (rows w) = Some r"
  shows "CreatePayment e req w =
           (Inr (toPaymentResponse r),
            emit (DbQueryKey (ReqIdempotencyKey req)) (others_commit e w))"
  using assms(1)
  by (intro CreatePayment_existing GetByIdempotencyKey_lookup assms(2)
      find_others_commit [OF assms(3)])

lemma nth_CreatePayment:
  assumes "i < length (rows w)"
  shows "i < length (rows (snd (CreatePayment e req w))) \<and>
         rows (snd (CreatePayment e req w)) ! i = rows w ! i"
proof (cases "validatePaymentRequest req")
  case (Some err)
  with assms show ?thesis by (simp add: CreatePayment_def)
next
  case None
  let ?k = "ReqIdempotencyKey req"
  obtain l w1 where l: "GetByIdempotencyKey e ?k w = (l, w1)"
    by (metis surj_pair)
  from GetByIdempotencyKey_world [OF l] nth_others_commit [OF assms, of e]
  have w1: "i < length (rows w1)" "rows w1 ! i = rows w ! i" by simp_all
  show ?thesis
  proof (cases l)
    case (Inl err)
    with None l w1 show ?thesis by (simp add: CreatePayment_def)
  next
    case (Inr found)
    show ?thesis
    proof (cases found)
      case (Some ex)
      with Inr None l w1 show ?thesis by (simp add: CreatePayment_def)
    next
      case none: None
      with Inr l have l': "GetByIdempotencyKey e ?k w = (Inr None, w1)" by simp
      obtain c p1 w2 where c: "Create e (newPayment req) w1 = (c, p1, w2)"
        by (metis prod_cases3)
      have oc: "i < length (rows (others_commit e w1))"
        "rows (others_commit e w1) ! i = rows w ! i"
        using nth_others_commit [OF w1(1), of e] w1(2) by simp_all
      show ?thesis
      proof (cases c)
        case (Some err)
        from c have "rows w2 = rows (others_commit e w1)"
          using Some by (auto simp: Create_def db_Create_def Let_def split: option.splits)
        with oc None l' c Some show ?thesis by (simp add: CreatePayment_def)
      next
        case created: None
        with c have c': "Create e (newPayment req) w1 = (None, p1, w2)" by simp
        from Create_ok [OF c'] have r2: "rows w2 = rows (others_commit e w1) @ [p1]"
          and u: "unique_violation (rows (others_commit e w1)) p1 = None" by simp_all
        from u have "ID p1 \<notin> ID ` set (rows (others_commit e w1))"
          by (auto simp: unique_violation_def split: if_splits)
        with oc(1) have ne: "ID (rows (others_commit e w1) ! i) \<noteq> ID p1"
          by (metis image_eqI nth_mem)
        from r2 oc ne have w2: "i < length (rows w2)" "rows w2 ! i = rows w ! i"
          "ID (rows w2 ! i) \<noteq> ID p1"
          by (simp_all add: nth_append)
        obtain r p2 w3 where run: "processPaymentWithRetry e p1 w2 = (r, p2, w3)"
          and p2: "ID p2 = ID p1"
          using run_payment [of e p1 w2] by blast
        from nth_run [OF w2(1) w2(3), of e] run w2(2)
        have w3: "i < length (rows w3)" "rows w3 ! i = rows w ! i" by simp_all
        note cp = CreatePayment_created [OF None l' c' run]
        show ?thesis
        proof (cases r)
          case None
          with cp w3 show ?thesis by simp
        next
          case (Some err)
          let ?q = "p2\<lparr>Status := StatusFailed, FailureReason := Error err\<rparr>"
          from w3 w2 p2 have "ID (rows w3 ! i) \<noteq> ID ?q" by simp
          from nth_Update [OF w3(1) this, of e] w3(2) Some cp show ?thesis by simp
        qed
      qed
    qed
  qed
qed

lemma nth_GetPayment:
  assumes "i < length (rows w)"
  shows "i < length (rows (snd (GetPayment e s w))) \<and>
         rows (snd (GetPayment e s w)) ! i = rows w ! i"
proof (cases "uuid_Parse e s")
  case None
  with assms show ?thesis by (simp add: GetPayment_def)
next
  case (Some u)
  obtain l w1 where l: "GetByID e u w = (l, w1)"
    by (metis surj_pair)
  from GetByID_world [OF l] nth_others_commit [OF assms, of e]
  have "i < length (rows w1) \<and> rows w1 ! i = rows w ! i" by simp
  with Some l show ?thesis by (cases l) (simp_all add: GetPayment_def)
qed

lemma CreatePayment_saves:
  "\<exists>qs. saves (trace (snd (CreatePayment e req w))) = saves (trace w) @ qs \<and>
     (qs = [] \<or> (\<exists>q. qs = [q] \<and> (Status q = StatusSuccess \<or> Status q = StatusFailed)))"
proof (cases "validatePaymentRequest req")
  case (Some err)
  then show ?thesis by (simp add: CreatePayment_def)
next
  case None
  let ?k = "ReqIdempotencyKey req"
  obtain l w1 where l: "GetByIdempotencyKey e ?k w = (l, w1)"
    by (metis surj_pair)
  from GetByIdempotencyKey_world [OF l]
  have w1: "saves (trace w1) = saves (trace w)" by (simp add: saves_append)
  show ?thesis
  proof (cases l)
    case (Inl err)
    with None l w1 show ?thesis by (simp add: CreatePayment_def)
  next
    case (Inr found)
    show ?thesis
    proof (cases found)
      case (Some ex)
      with Inr None l w1 show ?thesis by (simp add: CreatePayment_def)
    next
      case none: None
      with Inr l have l': "GetByIdempotencyKey e ?k w = (Inr None, w1)" by simp
      obtain c p1 w2 where c: "Create e (newPayment req) w1 = (c, p1, w2)"
        by (metis prod_cases3)
      from Create_trace [OF c] w1 have w2: "saves (trace w2) = saves (trace w)"
        by (simp add: saves_append)
      show ?thesis
      proof (cases c)
        case (Some err)
        with None l' c w2 show ?thesis by (simp add: CreatePayment_def)
      next
        case created: None
        with c have c': "Create e (newPayment req) w1 = (None, p1, w2)" by simp
        obtain r p2 w3 where run: "processPaymentWithRetry e p1 w2 = (r, p2, w3)"
          and s3: "saves (trace w3) = saves (trace w2) @ (case r of None \<Rightarrow> [p2] | Some err \<Rightarrow> [])"
          using run_saves [of e p1 w2] by blast
        from run_payment [of e p1 w2] run
        have st: "r = None \<Longrightarrow> Status p2 = StatusSuccess" by auto
        note cp = CreatePayment_created [OF None l' c' run]
        show ?thesis
        proof (cases r)
          case None
          with cp s3 w2 st show ?thesis by simp
        next
          case (Some err)
          with cp s3 w2 show ?thesis by (simp add: Update_proj saves_append)
        qed
      qed
    qed
  qed
qed

subsection \<open>The scenario of three failed attempts\<close>

lemma w_refused_reached:
  "CreatePayment env_gateway_down req_k1 w_empty =
     (Inr (toPaymentResponse row_refused), w_refused)"
proof -
  have v: "validatePaymentRequest req_k1 = None"
    by code_simp
  have l: "GetByIdempotencyKey env_gateway_down (ReqIdempotencyKey req_k1) w_empty =
      (Inr None, w_looked)"
    by code_simp
  have c: "Create env_gateway_down (newPayment req_k1) w_looked = (None, row_new, w_created)"
    by code_simp
  have run: "processPaymentWithRetry env_gateway_down row_new w_created =
     (Some (ErrorString ''payment failed after 3 retries: payment gateway timeout''),
      row_new\<lparr>RetryCount := 3\<rparr>,
      emit (Gateway True)
        (time_Sleep (200 * Millisecond) (emit (Gateway True)
          (time_Sleep (100 * Millisecond) (emit (Gateway True) w_created)))))"
    by (rule run_exhausted) (simp_all add: env_gateway_down_def)
  from CreatePayment_created [OF v l c run] show ?thesis
    by (simp add: Update_def db_Save_def others_commit_def env_gateway_down_def env_quiet_def
        w_created_def w_refused_def row_refused_def emit_def time_Sleep_def Let_def
        Millisecond_def)
qed

section \<open>The claims\<close>

subsection \<open>Validation\<close>

text \<open>
  C3, as stated, fails: the third rule of the code is on the bytes of the currency, not on
  its characters. A request whose currency is the euro sign, one character, is valid; a
  request whose currency is three accented letters, three characters, is refused with the
  message of the third rule.
\<close>

theorem currency_characters_not_counted:
  "RuneCountInString (ReqCurrency req_euro) = 1 \<and>
   validatePaymentRequest req_euro = None \<and>
   RuneCountInString (ReqCurrency req_accents) = 3 \<and>
   validatePaymentRequest req_accents =
     Some (ErrorString ''currency must be a 3-letter ISO code'')"
  by (simp add: req_euro_def req_accents_def req_k1_def validatePaymentRequest_def
      MinAmount_def MaxAmount_def RuneCountInString_def trail_def runeSize_def acceptLo_def
      acceptHi_def)

text \<open>
  C3, amended. Validation is a function of the request alone. It answers ``valid'' (\<open>None\<close>)
  exactly when the amount is at least \<open>MinAmount\<close> and at most \<open>MaxAmount\<close>, the currency is
  exactly three bytes long (Go's \<open>len\<close>; these are three characters when every byte of the
  currency is ASCII), and the idempotency key and the user id are not empty; otherwise it
  reports the first rule violated in the order of the specification. A valid request
  stays valid with the amount \<open>MinAmount\<close> and with the amount \<open>MaxAmount\<close>.
\<close>

theorem validatePaymentRequest_rules:
  "validatePaymentRequest req = map_option violation (first_violated req) \<and>
   (validatePaymentRequest req = None \<longleftrightarrow>
      MinAmount \<le> ReqAmount req \<and> ReqAmount req \<le> MaxAmount \<and>
      length (ReqCurrency req) = 3 \<and> ReqIdempotencyKey req \<noteq> [] \<and> ReqUserID req \<noteq> []) \<and>
   (validatePaymentRequest req = None \<longrightarrow>
      validatePaymentRequest (req\<lparr>ReqAmount := MinAmount\<rparr>) = None \<and>
      validatePaymentRequest (req\<lparr>ReqAmount := MaxAmount\<rparr>) = None) \<and>
   ((\<forall>c \<in> set (ReqCurrency req). of_char c < (128 :: nat)) \<longrightarrow>
      RuneCountInString (ReqCurrency req) = length (ReqCurrency req))"
  by (simp add: validatePaymentRequest_def first_violated_def fmt_d_values
      MinAmount_def MaxAmount_def RuneCountInString_def RuneCount_ascii)

theorem validatePaymentRequest_rules_witness:
  "validatePaymentRequest req_k1 = None \<and>
   validatePaymentRequest (req_k1\<lparr>ReqAmount := MinAmount\<rparr>) = None \<and>
   validatePaymentRequest (req_k1\<lparr>ReqAmount := MaxAmount\<rparr>) = None \<and>
   RuneCountInString (ReqCurrency req_k1) = length (ReqCurrency req_k1) \<and>
   length (ReqCurrency req_k1) = 3"
proof -
  have v: "validatePaymentRequest req_k1 = None"
    by (simp add: validatePaymentRequest_def req_k1_def MinAmount_def MaxAmount_def)
  have a: "\<forall>c \<in> set (ReqCurrency req_k1). of_char c < (128 :: nat)"
    by (simp add: req_k1_def)
  have l: "length (ReqCurrency req_k1) = 3"
    by (simp add: req_k1_def)
  note t = validatePaymentRequest_rules [of req_k1]
  note b = t [THEN conjunct2, THEN conjunct2, THEN conjunct1, THEN mp, OF v]
  note c = t [THEN conjunct2, THEN conjunct2, THEN conjunct2, THEN mp, OF a]
  show ?thesis
    by (intro conjI v b [THEN conjunct1] b [THEN conjunct2] c l)
qed

text \<open>
  C4. A request that violates a rule gets the rule's message as an error, and the world is
  the one before the call: no statement was sent to the database and the table is
  unchanged.
\<close>

theorem CreatePayment_invalid_request:
  assumes "ReqAmount req < MinAmount \<or> ReqAmount req > MaxAmount \<or>
           length (ReqCurrency req) \<noteq> 3 \<or> ReqIdempotencyKey req = [] \<or> ReqUserID req = []"
  shows "\<exists>msg. validatePaymentRequest req = Some (ErrorString msg) \<and>
           CreatePayment e req w = (Inl (ErrorString msg), w)"
proof -
  from assms have "\<exists>msg. validatePaymentRequest req = Some (ErrorString msg)"
    by (auto simp: validatePaymentRequest_def)
  then show ?thesis
    by (auto simp: CreatePayment_def)
qed

theorem CreatePayment_invalid_request_witness:
  "ReqAmount (req_k1\<lparr>ReqAmount := - 5\<rparr>) < MinAmount \<and>
   CreatePayment env_quiet (req_k1\<lparr>ReqAmount := - 5\<rparr>) w_empty =
     (Inl (ErrorString ''amount must be at least 1''), w_empty)"
proof -
  have low: "ReqAmount (req_k1\<lparr>ReqAmount := - 5\<rparr>) < MinAmount"
    by (simp add: MinAmount_def)
  have "validatePaymentRequest (req_k1\<lparr>ReqAmount := - 5\<rparr>) =
          Some (ErrorString ''amount must be at least 1'')"
    by (simp add: validatePaymentRequest_def MinAmount_def fmt_d_values)
  with low CreatePayment_invalid_request [of "req_k1\<lparr>ReqAmount := - 5\<rparr>" env_quiet w_empty]
  show ?thesis
    by auto
qed

subsection \<open>The retry loop\<close>

text \<open>
  C6. The effects of a run of \<open>processPaymentWithRetry\<close> are, for some number \<open>f\<close> of failed
  attempts: for each \<open>n\<close> from 1 to \<open>f\<close> the failed attempt \<open>n\<close>, followed, when \<open>n < MaxRetries\<close>,
  by a sleep of \<open>n\<close> times 100 ms and nothing else before attempt \<open>n + 1\<close>; then, when
  \<open>f < MaxRetries\<close>, the attempt that goes through and the update. So the wait before attempt
  \<open>n + 1\<close> is \<open>n\<close> times the base delay, no wait follows attempt \<open>MaxRetries\<close>, and the waits
  grow strictly with \<open>n\<close>.
\<close>

theorem backoff_schedule:
  "(\<exists>f q. f \<le> MaxRetries \<and>
      trace (snd (snd (processPaymentWithRetry e p w))) =
        trace w @
        concat (map (\<lambda>n. Gateway True #
                      (if n < MaxRetries then [Sleep (int n * (100 * Millisecond))] else []))
                  [1..<Suc f]) @
        (if f < MaxRetries then [Gateway False, Sleep (50 * Millisecond), DbSave q] else [])) \<and>
   (\<forall>n. int n * (100 * Millisecond) < int (Suc n) * (100 * Millisecond))"
proof
  let ?shape = "\<lambda>f q. f \<le> MaxRetries \<and>
      trace (snd (snd (processPaymentWithRetry e p w))) =
        trace w @
        concat (map (\<lambda>n. Gateway True #
                      (if n < MaxRetries then [Sleep (int n * (100 * Millisecond))] else []))
                  [1..<Suc f]) @
        (if f < MaxRetries then [Gateway False, Sleep (50 * Millisecond), DbSave q] else [])"
  show "\<exists>f q. ?shape f q"
  proof (cases rule: run_cases [of e w])
    case first
    then have "\<exists>q. ?shape 0 q"
      by (simp add: run_ok1 Update_proj MaxRetries_def)
    then show ?thesis by blast
  next
    case second
    then have "\<exists>q. ?shape 1 q"
      by (simp add: run_ok2 Update_proj MaxRetries_def)
    then show ?thesis by blast
  next
    case third
    then have "\<exists>q. ?shape 2 q"
      by (simp add: run_ok3 Update_proj MaxRetries_def upt_conv_Cons)
    then show ?thesis by blast
  next
    case none
    then have "?shape 3 p"
      by (simp add: run_exhausted MaxRetries_def upt_conv_Cons)
    then show ?thesis by blast
  qed
next
  show "\<forall>n. int n * (100 * Millisecond) < int (Suc n) * (100 * Millisecond)"
    by (simp add: Millisecond_def)
qed

subsection \<open>A duplicate key on create\<close>

text \<open>
  C1, as stated, fails: when another request commits a row with the same key between the
  lookup and the insert, the insert breaks the unique index and \<open>CreatePayment\<close> hands the
  database's error to its caller.
\<close>

theorem duplicate_key_surfaced:
  "validatePaymentRequest req_k1 = None \<and>
   fst (CreatePayment env_race req_k1 w_empty) =
     Inl (UniqueViolation ''idx_payments_idempotency_key'')"
  by code_simp

text \<open>
  C1, amended. For a valid request whose key the lookup does not find, an insert that
  fails, with a duplicate key or with any other error, ends \<open>CreatePayment\<close>: the error is
  returned, and the lookup and the insert are the only effects (no second lookup, no
  attempt).
\<close>

theorem create_error_returned:
  assumes "validatePaymentRequest req = None"
      and "GetByIdempotencyKey e (ReqIdempotencyKey req) w = (Inr None, w1)"
      and "Create e (newPayment req) w1 = (Some err, p1, w2)"
  shows "CreatePayment e req w = (Inl err, w2) \<and>
         trace w2 = trace w @ [DbQueryKey (ReqIdempotencyKey req), DbCreate p1]"
  using assms GetByIdempotencyKey_world [OF assms(2)] Create_trace [OF assms(3)]
  by (simp add: CreatePayment_def)

theorem create_error_returned_witness:
  "validatePaymentRequest req_k1 = None \<and>
   CreatePayment env_race req_k1 w_empty =
     (Inl (UniqueViolation ''idx_payments_idempotency_key''),
      \<lparr>rows = [(newPayment req_k1)\<lparr>ID := 9\<rparr>], now = 5,
       trace = [DbQueryKey ''k1'',
                DbCreate ((newPayment req_k1)\<lparr>ID := 7, CreatedAt := 5, UpdatedAt := 5\<rparr>)]\<rparr>)"
proof -
  let ?w1 = "\<lparr>rows = [], now = 5, trace = [DbQueryKey ''k1'']\<rparr>"
  let ?p1 = "(newPayment req_k1)\<lparr>ID := 7, CreatedAt := 5, UpdatedAt := 5\<rparr>"
  let ?w2 = "\<lparr>rows = [(newPayment req_k1)\<lparr>ID := 9\<rparr>], now = 5,
       trace = [DbQueryKey ''k1'', DbCreate ?p1]\<rparr>"
  have v: "validatePaymentRequest req_k1 = None"
    by code_simp
  have l: "GetByIdempotencyKey env_race (ReqIdempotencyKey req_k1) w_empty = (Inr None, ?w1)"
    by code_simp
  have c: "Create env_race (newPayment req_k1) ?w1 =
             (Some (UniqueViolation ''idx_payments_idempotency_key''), ?p1, ?w2)"
    by code_simp
  from create_error_returned [OF v l c] v show ?thesis
    by simp
qed

subsection \<open>Submitting again\<close>

text \<open>
  C2. Let a request be submitted and answered, and submit it again. The table then holds a
  record \<open>r\<close> with the key of the request, the first answer carries the id of \<open>r\<close>, and
  the second call, when the storage does not fail at its lookup, is answered with \<open>r\<close> as
  it stands: its id, its status whatever it is, its amount, currency and creation time.
  So both answers carry the same \<open>paymentId\<close>. When the storage fails at the lookup the
  second call returns that fault. In both cases the second call adds one effect to the
  world, the lookup by key: no attempt, no insert, no update, and the table after it is
  the table before it, with at most the row another request committed meanwhile.
\<close>

theorem second_submission_observes:
  assumes "CreatePayment e req w = (Inr resp1, w1)"
  shows "\<exists>r. find (\<lambda>r. IdempotencyKey r = ReqIdempotencyKey req) (rows w1) = Some r \<and>
           PaymentID resp1 = uuid_String (ID r) \<and>
           CreatePayment e req w1 =
             (case storage_fault e (length (trace w1)) of
                None \<Rightarrow>
                  Inr \<lparr>PaymentID = uuid_String (ID r), RespStatus = Status r,
                       RespAmount = Amount r, RespCurrency = Currency r,
                       RespCreatedAt = CreatedAt r\<rparr>
              | Some m \<Rightarrow> Inl (StorageFault m),
              emit (DbQueryKey (ReqIdempotencyKey req)) (others_commit e w1))"
proof -
  from CreatePayment_stores [OF assms] obtain r
    where r: "find (\<lambda>r. IdempotencyKey r = ReqIdempotencyKey req) (rows w1) = Some r"
      and id: "PaymentID resp1 = uuid_String (ID r)"
    by blast
  note v = CreatePayment_valid [OF assms]
  have "CreatePayment e req w1 =
          (case storage_fault e (length (trace w1)) of
             None \<Rightarrow> Inr (toPaymentResponse r)
           | Some m \<Rightarrow> Inl (StorageFault m),
           emit (DbQueryKey (ReqIdempotencyKey req)) (others_commit e w1))"
  proof (cases "storage_fault e (length (trace w1))")
    case None
    from CreatePayment_repeat [OF v None r] None show ?thesis by simp
  next
    case (Some m)
    from CreatePayment_lookup_fault [OF v Some] Some show ?thesis by simp
  qed
  with r id show ?thesis
    by (simp add: toPaymentResponse_def split: option.splits)
qed

theorem second_submission_observes_witness:
  "CreatePayment env_quiet req_k1 w_empty = (Inr resp_paid, w_paid) \<and>
   find (\<lambda>r. IdempotencyKey r = ReqIdempotencyKey req_k1) (rows w_paid) = Some row_paid \<and>
   PaymentID resp_paid = uuid_String (ID row_paid) \<and>
   CreatePayment env_quiet req_k1 w_paid =
     (Inr resp_paid, emit (DbQueryKey ''k1'') (others_commit env_quiet w_paid))"
proof -
  have h1: "CreatePayment env_quiet req_k1 w_empty = (Inr resp_paid, w_paid)"
    by code_simp
  have f: "find (\<lambda>r. IdempotencyKey r = ReqIdempotencyKey req_k1) (rows w_paid) = Some row_paid"
    by (simp add: w_paid_def row_paid_def row_new_def newPayment_def req_k1_def)
  have nf: "storage_fault env_quiet (length (trace w_paid)) = None"
    by (simp add: env_quiet_def)
  have fields: "\<lparr>PaymentID = uuid_String (ID row_paid), RespStatus = Status row_paid,
        RespAmount = Amount row_paid, RespCurrency = Currency row_paid,
        RespCreatedAt = CreatedAt row_paid\<rparr> = resp_paid"
    by code_simp
  have k: "ReqIdempotencyKey req_k1 = ''k1''"
    by (simp add: req_k1_def)
  from second_submission_observes [OF h1] obtain r
    where r: "find (\<lambda>r. IdempotencyKey r = ReqIdempotencyKey req_k1) (rows w_paid) = Some r"
      and i: "PaymentID resp_paid = uuid_String (ID r)"
      and c: "CreatePayment env_quiet req_k1 w_paid =
             (case storage_fault env_quiet (length (trace w_paid)) of
                None \<Rightarrow>
                  Inr \<lparr>PaymentID = uuid_String (ID r), RespStatus = Status r,
                       RespAmount = Amount r, RespCurrency = Currency r,
                       RespCreatedAt = CreatedAt r\<rparr>
              | Some m \<Rightarrow> Inl (StorageFault m),
              emit (DbQueryKey (ReqIdempotencyKey req_k1)) (others_commit env_quiet w_paid))"
    by (elim exE conjE)
  from r f have "r = row_paid" by simp
  with i c nf fields k have
    "PaymentID resp_paid = uuid_String (ID row_paid)"
    "CreatePayment env_quiet req_k1 w_paid =
       (Inr resp_paid, emit (DbQueryKey ''k1'') (others_commit env_quiet w_paid))"
    by simp_all
  with h1 f show ?thesis
    by (intro conjI)
qed

text \<open>
  C10. After a request has been answered, the table holds a record \<open>r\<close> with its key, and
  a valid request with the same key and any amount, currency and user id, whose lookup the
  storage does not fail, is answered with \<open>r\<close>: the id, status, amount and currency of the
  stored record. The id, amount and currency are those of the first answer, and the amount
  and currency are those of the first request when it was the first request that created
  the record. Nothing of the second request but its key reaches the answer, no error is
  reported, and the only effect is the lookup: after the call \<open>r\<close> is still the stored
  record of that key.
\<close>

theorem same_key_other_fields:
  assumes "CreatePayment e req1 w = (Inr resp1, w1)"
      and "validatePaymentRequest req2 = None"
      and "ReqIdempotencyKey req2 = ReqIdempotencyKey req1"
      and "storage_fault e (length (trace w1)) = None"
  shows "\<exists>r. find (\<lambda>r. IdempotencyKey r = ReqIdempotencyKey req1) (rows w1) = Some r \<and>
           CreatePayment e req2 w1 =
             (Inr \<lparr>PaymentID = uuid_String (ID r), RespStatus = Status r,
                   RespAmount = Amount r, RespCurrency = Currency r,
                   RespCreatedAt = CreatedAt r\<rparr>,
              emit (DbQueryKey (ReqIdempotencyKey req1)) (others_commit e w1)) \<and>
           find (\<lambda>r. IdempotencyKey r = ReqIdempotencyKey req1) (rows (others_commit e w1)) =
             Some r \<and>
           PaymentID resp1 = uuid_String (ID r) \<and>
           RespAmount resp1 = Amount r \<and>
           RespCurrency resp1 = Currency r \<and>
           (find (\<lambda>r. IdempotencyKey r = ReqIdempotencyKey req1) (rows (others_commit e w)) = None
              \<longrightarrow> Amount r = ReqAmount req1 \<and> Currency r = ReqCurrency req1)"
proof -
  from CreatePayment_stores [OF assms(1)] obtain r
    where r: "find (\<lambda>r. IdempotencyKey r = ReqIdempotencyKey req1) (rows w1) = Some r"
      and same: "PaymentID resp1 = uuid_String (ID r)" "RespAmount resp1 = Amount r"
        "RespCurrency resp1 = Currency r"
    by blast
  from r assms(3) have "find (\<lambda>r. IdempotencyKey r = ReqIdempotencyKey req2) (rows w1) = Some r"
    by simp
  from CreatePayment_repeat [OF assms(2) assms(4) this] assms(3)
  have c: "CreatePayment e req2 w1 =
      (Inr \<lparr>PaymentID = uuid_String (ID r), RespStatus = Status r,
            RespAmount = Amount r, RespCurrency = Currency r,
            RespCreatedAt = CreatedAt r\<rparr>,
       emit (DbQueryKey (ReqIdempotencyKey req1)) (others_commit e w1))"
    by (simp add: toPaymentResponse_def)
  have first: "Amount r = ReqAmount req1 \<and> Currency r = ReqCurrency req1"
    if "find (\<lambda>r. IdempotencyKey r = ReqIdempotencyKey req1) (rows (others_commit e w)) = None"
    using CreatePayment_from_request [OF assms(1) that] same by simp
  from r c same first find_others_commit [OF r, of e] show ?thesis
    by (intro exI [of _ r]) simp
qed

theorem same_key_other_fields_witness:
  "CreatePayment env_quiet req_k1 w_empty = (Inr resp_paid, w_paid) \<and>
   validatePaymentRequest req_k1_altered = None \<and>
   ReqIdempotencyKey req_k1_altered = ReqIdempotencyKey req_k1 \<and>
   ReqAmount req_k1_altered = 77 \<and> ReqCurrency req_k1_altered = ''USD'' \<and>
   storage_fault env_quiet (length (trace w_paid)) = None \<and>
   find (\<lambda>r. IdempotencyKey r = ReqIdempotencyKey req_k1) (rows w_paid) = Some row_paid \<and>
   CreatePayment env_quiet req_k1_altered w_paid =
     (Inr resp_paid, emit (DbQueryKey ''k1'') (others_commit env_quiet w_paid)) \<and>
   RespAmount resp_paid = 10000 \<and> RespCurrency resp_paid = ''INR'' \<and>
   RespStatus resp_paid = Status row_paid \<and>
   find (\<lambda>r. IdempotencyKey r = ReqIdempotencyKey req_k1)
     (rows (others_commit env_quiet w_paid)) = Some row_paid"
proof -
  have h1: "CreatePayment env_quiet req_k1 w_empty = (Inr resp_paid, w_paid)"
    by code_simp
  have h2: "validatePaymentRequest req_k1_altered = None"
    by code_simp
  have h3: "ReqIdempotencyKey req_k1_altered = ReqIdempotencyKey req_k1"
    by (simp add: req_k1_altered_def)
  have h4: "storage_fault env_quiet (length (trace w_paid)) = None"
    by (simp add: env_quiet_def)
  have h5: "ReqAmount req_k1_altered = 77" "ReqCurrency req_k1_altered = ''USD''"
    by (simp_all add: req_k1_altered_def)
  have h6: "RespAmount resp_paid = 10000" "RespCurrency resp_paid = ''INR''"
    "RespStatus resp_paid = Status row_paid"
    by (simp_all add: resp_paid_def row_paid_def StatusSuccess_def)
  have f: "find (\<lambda>r. IdempotencyKey r = ReqIdempotencyKey req_k1) (rows w_paid) = Some row_paid"
    by (simp add: w_paid_def row_paid_def row_new_def newPayment_def req_k1_def)
  have fields: "\<lparr>PaymentID = uuid_String (ID row_paid), RespStatus = Status row_paid,
        RespAmount = Amount row_paid, RespCurrency = Currency row_paid,
        RespCreatedAt = CreatedAt row_paid\<rparr> = resp_paid"
    by code_simp
  have k: "ReqIdempotencyKey req_k1 = ''k1''"
    by (simp add: req_k1_def)
  from same_key_other_fields [OF h1 h2 h3 h4] obtain r
    where r: "find (\<lambda>r. IdempotencyKey r = ReqIdempotencyKey req_k1) (rows w_paid) = Some r"
      and c: "CreatePayment env_quiet req_k1_altered w_paid =
             (Inr \<lparr>PaymentID = uuid_String (ID r), RespStatus = Status r,
                   RespAmount = Amount r, RespCurrency = Currency r,
                   RespCreatedAt = CreatedAt r\<rparr>,
              emit (DbQueryKey (ReqIdempotencyKey req_k1)) (others_commit env_quiet w_paid))"
      and s: "find (\<lambda>r. IdempotencyKey r = ReqIdempotencyKey req_k1)
                (rows (others_commit env_quiet w_paid)) = Some r"
    by (elim exE conjE)
  from r f have "r = row_paid" by simp
  with c s fields k have
    "CreatePayment env_quiet req_k1_altered w_paid =
       (Inr resp_paid, emit (DbQueryKey ''k1'') (others_commit env_quiet w_paid))"
    "find (\<lambda>r. IdempotencyKey r = ReqIdempotencyKey req_k1)
       (rows (others_commit env_quiet w_paid)) = Some row_paid"
    by simp_all
  with h1 h2 h3 h4 h5 h6 f show ?thesis
    by (intro conjI)
qed

subsection \<open>Exhausted retries\<close>

text \<open>
  C5. Take a valid request whose key the lookup does not find and whose insert succeeds,
  and let every attempt of the gateway fail. Then \<open>CreatePayment\<close> makes exactly
  \<open>MaxRetries\<close> = 3 attempts, with the two waits between them, and hands one record to
  \<open>Update\<close>: the created one with \<open>RetryCount = MaxRetries\<close>, status \<open>FAILED\<close> and the failure
  reason ``payment failed after 3 retries: payment gateway timeout'', which is not empty and
  ends with the last attempt's error. The caller gets this record as a payment outcome
  (\<open>Inr\<close>), not an error, and the table holds it when the storage accepts the update.
\<close>

theorem exhausted_retries:
  assumes "validatePaymentRequest req = None"
      and "GetByIdempotencyKey e (ReqIdempotencyKey req) w = (Inr None, w1)"
      and "Create e (newPayment req) w1 = (None, p1, w2)"
      and "\<forall>k. gateway_fails e k"
  shows "\<exists>pf w4. CreatePayment e req w = (Inr (toPaymentResponse pf), w4) \<and>
           trace w4 = trace w2 @
             [Gateway True, Sleep (100 * Millisecond), Gateway True, Sleep (200 * Millisecond),
              Gateway True, DbSave pf] \<and>
           pf = p1\<lparr>RetryCount := int MaxRetries, Status := StatusFailed,
                   FailureReason := ''payment failed after 3 retries: payment gateway timeout'',
                   UpdatedAt := now w2 + 300 * Millisecond\<rparr> \<and>
           RespStatus (toPaymentResponse pf) = StatusFailed \<and>
           FailureReason pf \<noteq> [] \<and>
           (storage_fault e (length (trace w2) + 5) = None \<longrightarrow> pf \<in> set (rows w4))"
proof -
  let ?pf = "p1\<lparr>RetryCount := int MaxRetries, Status := StatusFailed,
                   FailureReason := ''payment failed after 3 retries: payment gateway timeout'',
                   UpdatedAt := now w2 + 300 * Millisecond\<rparr>"
  let ?w3 = "emit (Gateway True)
        (time_Sleep (200 * Millisecond) (emit (Gateway True)
          (time_Sleep (100 * Millisecond) (emit (Gateway True) w2))))"
  let ?q = "p1\<lparr>RetryCount := 3, Status := StatusFailed,
        FailureReason := ''payment failed after 3 retries: payment gateway timeout''\<rparr>"
  from assms(4) have run: "processPaymentWithRetry e p1 w2 =
     (Some (ErrorString ''payment failed after 3 retries: payment gateway timeout''),
      p1\<lparr>RetryCount := 3\<rparr>, ?w3)"
    by (simp add: run_exhausted)
  from CreatePayment_created [OF assms(1-3) run]
  have cp: "CreatePayment e req w = (Inr (toPaymentResponse ?pf), snd (snd (Update e ?q ?w3)))"
    by (simp add: MaxRetries_def algebra_simps)
  have tr: "trace (snd (snd (Update e ?q ?w3))) = trace w2 @
             [Gateway True, Sleep (100 * Millisecond), Gateway True, Sleep (200 * Millisecond),
              Gateway True, DbSave ?pf]"
    by (simp add: Update_proj MaxRetries_def algebra_simps)
  have pf: "?q\<lparr>UpdatedAt := now ?w3\<rparr> = ?pf"
    by (simp add: MaxRetries_def algebra_simps)
  have stored: "?pf \<in> set (rows (snd (snd (Update e ?q ?w3))))"
    if nf: "storage_fault e (length (trace w2) + 5) = None"
  proof -
    from nf have nf': "storage_fault e (length (trace ?w3)) = None"
      by (simp add: eval_nat_numeral)
    from Create_ok [OF assms(3)] have "p1 \<in> set (rows w2)" by simp
    then have "p1 \<in> set (rows ?w3)" by simp
    with others_commit_rows [of e ?w3] have "p1 \<in> set (rows (others_commit e ?w3))"
      by auto
    then have "?q\<lparr>UpdatedAt := now ?w3\<rparr>
        \<in> set (map (\<lambda>r. if ID r = ID ?q then ?q\<lparr>UpdatedAt := now ?w3\<rparr> else r)
                 (rows (others_commit e ?w3)))"
      by (rule overwrite_member) simp
    also have "map (\<lambda>r. if ID r = ID ?q then ?q\<lparr>UpdatedAt := now ?w3\<rparr> else r)
                 (rows (others_commit e ?w3)) = rows (snd (snd (Update e ?q ?w3)))"
      by (simp only: Update_rows nf' option.simps)
    finally show ?thesis
      by (simp only: pf)
  qed
  from cp tr stored show ?thesis
    by (intro exI [of _ ?pf] exI [of _ "snd (snd (Update e ?q ?w3))"])
       (simp add: toPaymentResponse_def)
qed

theorem exhausted_retries_witness:
  "validatePaymentRequest req_k1 = None \<and>
   GetByIdempotencyKey env_gateway_down (ReqIdempotencyKey req_k1) w_empty = (Inr None, w_looked) \<and>
   Create env_gateway_down (newPayment req_k1) w_looked = (None, row_new, w_created) \<and>
   (\<exists>w4. CreatePayment env_gateway_down req_k1 w_empty = (Inr (toPaymentResponse row_refused), w4) \<and>
         trace w4 = trace w_created @
           [Gateway True, Sleep (100 * Millisecond), Gateway True, Sleep (200 * Millisecond),
            Gateway True, DbSave row_refused] \<and>
         RespStatus (toPaymentResponse row_refused) = StatusFailed \<and>
         FailureReason row_refused \<noteq> [] \<and>
         row_refused \<in> set (rows w4))"
proof -
  have h1: "validatePaymentRequest req_k1 = None"
    by code_simp
  have h2: "GetByIdempotencyKey env_gateway_down (ReqIdempotencyKey req_k1) w_empty =
      (Inr None, w_looked)"
    by code_simp
  have h3: "Create env_gateway_down (newPayment req_k1) w_looked = (None, row_new, w_created)"
    by code_simp
  have h4: "\<forall>k. gateway_fails env_gateway_down k"
    by (simp add: env_gateway_down_def)
  have h5: "storage_fault env_gateway_down (length (trace w_created) + 5) = None"
    by (simp add: env_gateway_down_def env_quiet_def)
  have pf: "row_new\<lparr>RetryCount := int MaxRetries, Status := StatusFailed,
                   FailureReason := ''payment failed after 3 retries: payment gateway timeout'',
                   UpdatedAt := now w_created + 300 * Millisecond\<rparr> = row_refused"
    by (simp add: row_refused_def w_created_def MaxRetries_def)
  from exhausted_retries [OF h1 h2 h3 h4] obtain pf w4 where
    c: "CreatePayment env_gateway_down req_k1 w_empty = (Inr (toPaymentResponse pf), w4)" and
    t: "trace w4 = trace w_created @
           [Gateway True, Sleep (100 * Millisecond), Gateway True, Sleep (200 * Millisecond),
            Gateway True, DbSave pf]" and
    e: "pf = row_new\<lparr>RetryCount := int MaxRetries, Status := StatusFailed,
                   FailureReason := ''payment failed after 3 retries: payment gateway timeout'',
                   UpdatedAt := now w_created + 300 * Millisecond\<rparr>" and
    s: "RespStatus (toPaymentResponse pf) = StatusFailed" and
    f: "FailureReason pf \<noteq> []" and
    m: "storage_fault env_gateway_down (length (trace w_created) + 5) = None \<longrightarrow>
          pf \<in> set (rows w4)"
    by (elim exE conjE)
  from e pf have "pf = row_refused" by (rule trans)
  with c t s f m h5 have
    "CreatePayment env_gateway_down req_k1 w_empty = (Inr (toPaymentResponse row_refused), w4) \<and>
         trace w4 = trace w_created @
           [Gateway True, Sleep (100 * Millisecond), Gateway True, Sleep (200 * Millisecond),
            Gateway True, DbSave row_refused] \<and>
         RespStatus (toPaymentResponse row_refused) = StatusFailed \<and>
         FailureReason row_refused \<noteq> [] \<and>
         row_refused \<in> set (rows w4)"
    by (simp only: simp_thms)
  then have "\<exists>w4. CreatePayment env_gateway_down req_k1 w_empty =
           (Inr (toPaymentResponse row_refused), w4) \<and>
         trace w4 = trace w_created @
           [Gateway True, Sleep (100 * Millisecond), Gateway True, Sleep (200 * Millisecond),
            Gateway True, DbSave row_refused] \<and>
         RespStatus (toPaymentResponse row_refused) = StatusFailed \<and>
         FailureReason row_refused \<noteq> [] \<and>
         row_refused \<in> set (rows w4)"
    by (rule exI)
  with h1 h2 h3 show ?thesis
    by (intro conjI)
qed

subsection \<open>Stored records stay as they are\<close>

text \<open>
  C7. A stored record whose status is \<open>SUCCESS\<close> or \<open>FAILED\<close> is the same record, at the same
  place of the table, after \<open>CreatePayment\<close> with any request (the same key or another),
  after \<open>GetPayment\<close>, and after the retry loop run on any other record. One call of
  \<open>CreatePayment\<close> sends at most one update, and the record it writes has the status
  \<open>SUCCESS\<close> or \<open>FAILED\<close>: the record the call created leaves \<open>INITIATED\<close> once, for one of
  the two.
\<close>

theorem stored_status_immutable:
  assumes "i < length (rows w)"
      and "Status (rows w ! i) = StatusSuccess \<or> Status (rows w ! i) = StatusFailed"
  shows "(i < length (rows (snd (CreatePayment e req w))) \<and>
          rows (snd (CreatePayment e req w)) ! i = rows w ! i) \<and>
         (i < length (rows (snd (GetPayment e s w))) \<and>
          rows (snd (GetPayment e s w)) ! i = rows w ! i) \<and>
         (ID (rows w ! i) \<noteq> ID p \<longrightarrow>
            i < length (rows (snd (snd (processPaymentWithRetry e p w)))) \<and>
            rows (snd (snd (processPaymentWithRetry e p w))) ! i = rows w ! i) \<and>
         (\<exists>qs. saves (trace (snd (CreatePayment e req w))) = saves (trace w) @ qs \<and>
               (qs = [] \<or>
                (\<exists>q. qs = [q] \<and> (Status q = StatusSuccess \<or> Status q = StatusFailed))))"
  using nth_CreatePayment [OF assms(1)] nth_GetPayment [OF assms(1)] nth_run [OF assms(1)]
    CreatePayment_saves [of e req w]
  by (intro conjI impI) simp_all

theorem stored_status_immutable_witness:
  "0 < length (rows w_refused) \<and>
   Status (rows w_refused ! 0) = StatusFailed \<and>
   ID (rows w_refused ! 0) \<noteq> ID (newPayment req_k2) \<and>
   rows (snd (CreatePayment env_quiet req_k1 w_refused)) ! 0 = rows w_refused ! 0 \<and>
   rows (snd (CreatePayment env_quiet req_k2 w_refused)) ! 0 = rows w_refused ! 0 \<and>
   rows (snd (GetPayment env_quiet ''00000000-0000-0000-0000-000000000007'' w_refused)) ! 0 =
     rows w_refused ! 0 \<and>
   rows (snd (snd (processPaymentWithRetry env_quiet (newPayment req_k2) w_refused))) ! 0 =
     rows w_refused ! 0"
proof -
  have h1: "0 < length (rows w_refused)"
    by (simp add: w_refused_def)
  have h2: "Status (rows w_refused ! 0) = StatusFailed"
    by (simp add: w_refused_def row_refused_def)
  have h3: "ID (rows w_refused ! 0) \<noteq> ID (newPayment req_k2)"
    by (simp add: w_refused_def row_refused_def row_new_def newPayment_def uuid_Nil_def)
  note a = stored_status_immutable [OF h1 disjI2 [OF h2], of env_quiet req_k1
      "''00000000-0000-0000-0000-000000000007''" "newPayment req_k2"]
  note b = stored_status_immutable [OF h1 disjI2 [OF h2], of env_quiet req_k2
      "''00000000-0000-0000-0000-000000000007''" "newPayment req_k2"]
  from a b h1 h2 h3 show ?thesis
    by simp
qed

subsection \<open>Fetching\<close>

text \<open>
  C8. When the identifier does not parse, \<open>GetPayment\<close> returns the error ``invalid payment
  ID format'' and the world is the one before the call: the store was not asked. When it
  parses, the storage does not fail and no row of the table has that id, the error is
  ``payment not found''. The two errors differ, and ``payment not found'' is not the error of
  a storage fault, which \<open>GetPayment\<close> returns as it is.
\<close>

theorem GetPayment_errors:
  "(uuid_Parse e s = None \<longrightarrow>
      GetPayment e s w = (Inl (ErrorString ''invalid payment ID format''), w)) \<and>
   (uuid_Parse e s = Some u \<and> storage_fault e (length (trace w)) = None \<and>
    u \<notin> ID ` set (rows (others_commit e w)) \<longrightarrow>
      GetPayment e s w =
        (Inl (ErrorString ''payment not found''), emit (DbQueryID u) (others_commit e w))) \<and>
   (uuid_Parse e s = Some u \<and> storage_fault e (length (trace w)) = Some m \<longrightarrow>
      GetPayment e s w = (Inl (StorageFault m), emit (DbQueryID u) (others_commit e w))) \<and>
   ErrorString ''invalid payment ID format'' \<noteq> ErrorString ''payment not found'' \<and>
   ErrorString ''payment not found'' \<noteq> StorageFault m"
proof -
  have "find (\<lambda>r. ID r = u) rs = None" if "u \<notin> ID ` set rs" for rs :: "Payment list"
    using that by (induction rs) auto
  then show ?thesis
    by (auto simp: GetPayment_def GetByID_def db_First_def Let_def)
qed

theorem GetPayment_errors_witness:
  "GetPayment env_quiet ''not-a-uuid'' w_empty =
     (Inl (ErrorString ''invalid payment ID format''), w_empty) \<and>
   GetPayment env_quiet ''00000000-0000-0000-0000-000000000007'' w_empty =
     (Inl (ErrorString ''payment not found''), emit (DbQueryID 7) (others_commit env_quiet w_empty)) \<and>
   GetPayment env_db_down ''00000000-0000-0000-0000-000000000007'' w_empty =
     (Inl (StorageFault ''connection lost''),
      emit (DbQueryID 7) (others_commit env_db_down w_empty))"
proof -
  have p1: "uuid_Parse env_quiet ''not-a-uuid'' = None"
    by (simp add: env_quiet_def)
  have p2: "uuid_Parse env_quiet ''00000000-0000-0000-0000-000000000007'' = Some 7 \<and>
      storage_fault env_quiet (length (trace w_empty)) = None \<and>
      7 \<notin> ID ` set (rows (others_commit env_quiet w_empty))"
    by (simp add: env_quiet_def w_empty_def others_commit_def)
  have p3: "uuid_Parse env_db_down ''00000000-0000-0000-0000-000000000007'' = Some 7 \<and>
      storage_fault env_db_down (length (trace w_empty)) = Some ''connection lost''"
    by (simp add: env_db_down_def env_quiet_def)
  have a: "GetPayment env_quiet ''not-a-uuid'' w_empty =
     (Inl (ErrorString ''invalid payment ID format''), w_empty)"
    by (rule GetPayment_errors [THEN conjunct1, THEN mp, OF p1])
  have b: "GetPayment env_quiet ''00000000-0000-0000-0000-000000000007'' w_empty =
     (Inl (ErrorString ''payment not found''), emit (DbQueryID 7) (others_commit env_quiet w_empty))"
    by (rule GetPayment_errors [THEN conjunct2, THEN conjunct1, THEN mp, OF p2])
  have c: "GetPayment env_db_down ''00000000-0000-0000-0000-000000000007'' w_empty =
     (Inl (StorageFault ''connection lost''),
      emit (DbQueryID 7) (others_commit env_db_down w_empty))"
    by (rule GetPayment_errors [THEN conjunct2, THEN conjunct2, THEN conjunct1, THEN mp, OF p3])
  from a b c show ?thesis
    by (intro conjI)
qed

subsection \<open>Storage faults\<close>




end
